theory Spec2Isabelle
  imports Main "HOL-Library.Sublist" "HOL-Library.Code_Target_Nat"
begin

section \<open>JavaScript strings\<close>

text \<open>
  A JavaScript string is a sequence of UTF-16 code units; \<open>length\<close> counts code units,
  as \<^verbatim>\<open>String.prototype.length\<close> does. A code unit is a natural number below 65536.
  \<open>js\<close> turns an ASCII literal into such a string; characters outside ASCII are written
  by their code unit (the euro sign is 8364).
\<close>

type_synonym jsstring = "nat list"

definition js :: "string \<Rightarrow> jsstring" where
  "js s = map of_char s"

text \<open>White space and line terminators of ECMAScript: what \<^verbatim>\<open>trim()\<close> strips and what
  \<^verbatim>\<open>\s\<close> matches.\<close>

definition isWhiteSpace :: "nat \<Rightarrow> bool" where
  "isWhiteSpace c =
     (c \<in> set [9, 10, 11, 12, 13, 32, 160, 5760, 8232, 8233, 8239, 8287, 12288, 65279]
      \<or> (8192 \<le> c \<and> c \<le> 8202))"

definition trim :: "jsstring \<Rightarrow> jsstring" where
  "trim s = rev (dropWhile isWhiteSpace (rev (dropWhile isWhiteSpace s)))"

definition startsWith :: "jsstring \<Rightarrow> jsstring \<Rightarrow> bool" where
  "startsWith s p = (take (length p) s = p)"

fun includesStr :: "jsstring \<Rightarrow> jsstring \<Rightarrow> bool" where
  "includesStr [] p = (p = [])"
| "includesStr (c # cs) p = (startsWith (c # cs) p \<or> includesStr cs p)"

text \<open>\<^verbatim>\<open>s.split(sep)\<close> for a separator of one code unit: the empty string splits into
  one empty field.\<close>

fun split :: "nat \<Rightarrow> jsstring \<Rightarrow> jsstring list" where
  "split sep [] = [[]]"
| "split sep (c # cs) =
     (if c = sep then [] # split sep cs
      else (case split sep cs of [] \<Rightarrow> [[c]] | f # fs \<Rightarrow> (c # f) # fs))"

text \<open>\<^verbatim>\<open>toLowerCase()\<close> on the ASCII letters. Outside ASCII the only characters whose
  lower case contains an ASCII letter are U+212A (to k) and U+0130 (to i followed by a
  combining dot); the substrings searched for after lowering (\<open>price\<close>, \<open>reviewrating\<close>,
  \<open>ratingvalue\<close>) have no k and no i at their end, so the searches agree.\<close>

definition toLowerCase :: "jsstring \<Rightarrow> jsstring" where
  "toLowerCase s = map (\<lambda>c. if 65 \<le> c \<and> c \<le> 90 then c + 32 else c) s"

text \<open>Decimal digits of a number, for the template literal of the notification.\<close>

fun showNat :: "nat \<Rightarrow> jsstring" where
  "showNat n = (if n < 10 then [48 + n] else showNat (n div 10) @ [48 + n mod 10])"

declare showNat.simps [simp del]

text \<open>A value that is a string, \<^verbatim>\<open>undefined\<close> or \<^verbatim>\<open>null\<close> (both \<open>None\<close>); it is
  truthy when it is a non-empty string. \<open>jsor\<close> is \<^verbatim>\<open>a || b\<close>.\<close>

definition truthy :: "jsstring option \<Rightarrow> bool" where
  "truthy v = (case v of None \<Rightarrow> False | Some s \<Rightarrow> s \<noteq> [])"

definition jsor :: "jsstring option \<Rightarrow> jsstring option \<Rightarrow> jsstring option" where
  "jsor a b = (if truthy a then a else b)"

section \<open>Regular expressions\<close>

text \<open>
  The three regular expressions of \<^verbatim>\<open>content.js\<close> use literals, character classes,
  \<^verbatim>\<open>\d\<close>, \<^verbatim>\<open>\s\<close>, sequence, alternation, \<^verbatim>\<open>*\<close>, \<^verbatim>\<open>?\<close> and the assertions \<^verbatim>\<open>\b\<close>, \<^verbatim>\<open>^\<close>
  and \<^verbatim>\<open>$\<close>: no captures that are read, no back references, no lookaround. For such a
  pattern \<^verbatim>\<open>test\<close> returns true exactly when some substring matches, so the matcher
  computes every position a match can end at. A matcher state is the code unit before
  the current position (if any) and the rest of the input.
\<close>

datatype regex =
    AnyLit "jsstring list"
  | OneOf "nat list"
  | Digit
  | Space
  | Seq regex regex
  | Alt regex regex
  | Star regex
  | Opt regex
  | WordB
  | Bol
  | Eol

type_synonym mstate = "nat option \<times> jsstring"

definition isDigit :: "nat \<Rightarrow> bool" where
  "isDigit c = (48 \<le> c \<and> c \<le> 57)"

definition isWordChar :: "nat \<Rightarrow> bool" where
  "isWordChar c = (isDigit c \<or> (65 \<le> c \<and> c \<le> 90) \<or> (97 \<le> c \<and> c \<le> 122) \<or> c = 95)"

text \<open>Canonicalize of ECMAScript under the \<^verbatim>\<open>i\<close> flag without the \<^verbatim>\<open>u\<close> flag: upper case,
  and a code unit outside ASCII never becomes an ASCII one. The patterns' characters
  outside ASCII are currency signs, which have no case, so comparing canonical forms on
  the ASCII letters alone decides the same matches.\<close>

definition canonicalize :: "bool \<Rightarrow> nat \<Rightarrow> nat" where
  "canonicalize ic c = (if ic \<and> 97 \<le> c \<and> c \<le> 122 then c - 32 else c)"

fun lit_ends :: "bool \<Rightarrow> jsstring \<Rightarrow> mstate \<Rightarrow> mstate list" where
  "lit_ends ic [] st = [st]"
| "lit_ends ic (p # ps) (prev, []) = []"
| "lit_ends ic (p # ps) (prev, c # cs) =
     (if canonicalize ic c = canonicalize ic p then lit_ends ic ps (Some c, cs) else [])"

fun char_ends :: "(nat \<Rightarrow> bool) \<Rightarrow> mstate \<Rightarrow> mstate list" where
  "char_ends P (prev, []) = []"
| "char_ends P (prev, c # cs) = (if P c then [(Some c, cs)] else [])"

fun wordBoundary :: "mstate \<Rightarrow> bool" where
  "wordBoundary (prev, rest) =
     ((case prev of None \<Rightarrow> False | Some c \<Rightarrow> isWordChar c)
        \<noteq> (case rest of [] \<Rightarrow> False | c # _ \<Rightarrow> isWordChar c))"

text \<open>The iterations of \<^verbatim>\<open>r*\<close>: an iteration that consumes nothing is dropped, as the
  RepeatMatcher of ECMAScript drops it. Each round shortens the rest of the input, so
  as many rounds as the rest is long reach every end position.\<close>

fun star_steps :: "nat \<Rightarrow> (mstate \<Rightarrow> mstate list) \<Rightarrow> mstate list \<Rightarrow> mstate list" where
  "star_steps 0 f sts = sts"
| "star_steps (Suc n) f sts =
     (if sts = [] then []
      else sts @ star_steps n f
        (remdups (concat (map (\<lambda>st. filter (\<lambda>st'. length (snd st') < length (snd st)) (f st)) sts))))"

primrec ends :: "regex \<Rightarrow> bool \<Rightarrow> mstate \<Rightarrow> mstate list" where
  "ends (AnyLit ws) ic st = concat (map (\<lambda>w. lit_ends ic w st) ws)"
| "ends (OneOf cs) ic st =
     char_ends (\<lambda>c. canonicalize ic c \<in> set (map (canonicalize ic) cs)) st"
| "ends Digit ic st = char_ends isDigit st"
| "ends Space ic st = char_ends isWhiteSpace st"
| "ends (Seq a b) ic st = concat (map (ends b ic) (ends a ic st))"
| "ends (Alt a b) ic st = ends a ic st @ ends b ic st"
| "ends (Star a) ic st = star_steps (length (snd st)) (ends a ic) [st]"
| "ends (Opt a) ic st = ends a ic st @ [st]"
| "ends WordB ic st = (if wordBoundary st then [st] else [])"
| "ends Bol ic st = (if fst st = None then [st] else [])"
| "ends Eol ic st = (if snd st = [] then [st] else [])"

text \<open>\<^verbatim>\<open>regex.test(s)\<close> for a regex without the \<^verbatim>\<open>g\<close> flag: a match may start at any
  position, the end of the string included.\<close>

fun search :: "regex \<Rightarrow> bool \<Rightarrow> nat option \<Rightarrow> jsstring \<Rightarrow> bool" where
  "search r ic prev [] = (ends r ic (prev, []) \<noteq> [])"
| "search r ic prev (c # cs) = (ends r ic (prev, c # cs) \<noteq> [] \<or> search r ic (Some c) cs)"

definition regex_test :: "regex \<Rightarrow> bool \<Rightarrow> jsstring \<Rightarrow> bool" where
  "regex_test r ic s = search r ic None s"

definition lit :: "string \<Rightarrow> regex" where
  "lit s = AnyLit [js s]"

definition plusRx :: "regex \<Rightarrow> regex" where
  "plusRx r = Seq r (Star r)"

subsection \<open>The patterns of content.js\<close>

text \<open>The currency signs of the character class: dollar, euro, pound, yen, rupee,
  rouble, won, lira.\<close>

definition currencySymbols :: "nat list" where
  "currencySymbols = [36, 8364, 163, 165, 8377, 8381, 8361, 8378]"

definition currencyCodes :: "jsstring list" where
  "currencyCodes = map js [''USD'', ''EUR'', ''GBP'', ''JPY'', ''AUD'', ''CAD'', ''CHF'', ''CNY'',
     ''SEK'', ''NZD'', ''KRW'', ''INR'', ''RUB'', ''ZAR'', ''SGD'', ''TRY'', ''TL'', ''BRL'', ''MXN'',
     ''IDR'', ''DKK'', ''PLN'', ''THB'', ''HUF'', ''CZK'', ''ILS'', ''MYR'', ''PHP'', ''RON'', ''ARS'',
     ''CLP'', ''COP'', ''EGP'', ''HKD'', ''IQD'', ''JOD'', ''KWD'', ''LBP'', ''MAD'', ''MUR'', ''NGN'',
     ''NOK'', ''OMR'', ''QAR'', ''SAR'', ''VND'']"

text \<open>\<^verbatim>\<open>\d{1,3}(?:[.,\s]\d{3})*(?:[.,]\d{1,2})?\<close>\<close>

definition magnitude :: regex where
  "magnitude =
     Seq (Seq Digit (Seq (Opt Digit) (Opt Digit)))
       (Seq (Star (Seq (Alt (OneOf [46, 44]) Space) (Seq Digit (Seq Digit Digit))))
            (Opt (Seq (OneOf [46, 44]) (Seq Digit (Opt Digit)))))"

text \<open>\<^verbatim>\<open>/(?:[sign]|(?:CODE)\s*)\s*magnitude\b|^magnitude\s*(?:[sign]|(?:CODE))$/i\<close>\<close>

definition priceRegex :: regex where
  "priceRegex =
     Alt (Seq (Alt (OneOf currencySymbols) (Seq (AnyLit currencyCodes) (Star Space)))
              (Seq (Star Space) (Seq magnitude WordB)))
         (Seq Bol (Seq magnitude (Seq (Star Space)
              (Seq (Alt (OneOf currencySymbols) (AnyLit currencyCodes)) Eol))))"

definition reviewPattern :: regex where
  "reviewPattern =
     Alt (Seq WordB (Seq
            (Alt (Seq (lit ''star'') (Opt (lit ''s'')))
            (Alt (lit ''rating'')
            (Alt (Seq (lit ''review'') (Opt (lit ''s'')))
            (Alt (Seq (lit ''out of '') (plusRx Digit))
            (Alt (Seq (lit ''sur '') (plusRx Digit))
            (Alt (Seq (lit ''from '') (Seq (plusRx Digit) (Opt (Seq (lit ''.'') (plusRx Digit)))))
            (Alt (lit ''customer reviews'')
            (Alt (lit ''overall score'')
            (Alt (lit ''average rating'')
            (Alt (lit ''wertung'') (lit ''beoordeling'')))))))))))
            WordB))
         (Seq Bol (Seq Digit (Seq (Opt (Seq (lit ''.'') (plusRx Digit)))
            (Seq (lit ''/'') (Seq Digit Eol)))))"

text \<open>\<^verbatim>\<open>/^\d+$/\<close>\<close>

definition numericRegex :: regex where
  "numericRegex = Seq Bol (Seq (plusRx Digit) Eol)"

definition priceRegex_test :: "jsstring \<Rightarrow> bool" where
  "priceRegex_test s = regex_test priceRegex True s"

definition reviewPattern_test :: "jsstring \<Rightarrow> bool" where
  "reviewPattern_test s = regex_test reviewPattern True s"

definition numericRegex_test :: "jsstring \<Rightarrow> bool" where
  "numericRegex_test s = regex_test numericRegex False s"

section \<open>The document\<close>

text \<open>
  The properties of an element that \<^verbatim>\<open>content.js\<close> reads. \<open>innerText\<close>, the offset
  geometry and \<open>offsetParentNull\<close> (\<^verbatim>\<open>el.offsetParent === null\<close>) come from the layout;
  \<open>src\<close>, \<open>srcset\<close>, the natural size and \<open>loading\<close> are the properties of an image
  element (empty strings and zeros on other elements).

  \<open>htmlElement\<close> says whether the element is an HTML element. \<^verbatim>\<open>offsetParent\<close>,
  \<^verbatim>\<open>offsetWidth\<close>, \<^verbatim>\<open>offsetHeight\<close> and \<^verbatim>\<open>innerText\<close> are properties of HTML elements
  only: on an SVG or MathML element they are \<^verbatim>\<open>undefined\<close>, so that \<^verbatim>\<open>=== null\<close>,
  \<^verbatim>\<open>=== 0\<close>, \<^verbatim>\<open><\<close> and \<^verbatim>\<open>>\<close> on one of them are false and \<^verbatim>\<open>el.innerText.trim()\<close>
  throws a TypeError. For such an
  element the fields of these properties carry no meaning, and the script's reads of
  them are modelled case by case (\<open>sizeOutOfBounds\<close>, \<open>imageOk\<close>, \<open>filterCallback\<close>,
  \<open>titleLoop\<close>).
\<close>

record props =
  localName :: string
  htmlElement :: bool
  attributes :: "(string \<times> jsstring) list"
  innerText :: jsstring
  offsetParentNull :: bool
  offsetWidth :: nat
  offsetHeight :: nat
  src :: jsstring
  srcset :: jsstring
  naturalWidth :: nat
  naturalHeight :: nat
  loading :: jsstring

datatype element = Element props "element list"

text \<open>
  A reference to an element of the document: the element with its position, the child
  indices from the element up to the root (the root element has position \<open>[]\<close>). Two
  references are the same element when their positions are equal; this is the identity
  the \<^verbatim>\<open>Set\<close> of processed containers compares.
\<close>

type_synonym node = "nat list \<times> element"

definition path :: "node \<Rightarrow> nat list" where
  "path n = fst n"

fun el :: "node \<Rightarrow> props" where
  "el (p, Element pr cs) = pr"

text \<open>The element and its descendants in document order (preorder).\<close>

fun subtree :: "nat list \<Rightarrow> element \<Rightarrow> node list"
  and forest :: "nat list \<Rightarrow> nat \<Rightarrow> element list \<Rightarrow> node list" where
  "subtree p (Element pr cs) = (p, Element pr cs) # forest p 0 cs"
| "forest p i [] = []"
| "forest p i (c # cs) = subtree (i # p) c @ forest p (Suc i) cs"

fun lookup :: "element \<Rightarrow> nat list \<Rightarrow> element option" where
  "lookup e [] = Some e"
| "lookup (Element pr cs) (i # is) = (if i < length cs then lookup (cs ! i) is else None)"

text \<open>\<^verbatim>\<open>el.parentElement\<close>: \<^verbatim>\<open>null\<close> at the root element.\<close>

definition parentElement :: "element \<Rightarrow> node \<Rightarrow> node option" where
  "parentElement doc n =
     (case path n of [] \<Rightarrow> None
      | i # p \<Rightarrow> (case lookup doc (rev p) of None \<Rightarrow> None | Some e \<Rightarrow> Some (p, e)))"

text \<open>The proper ancestors of an element, the parent first.\<close>

fun ancestorsAt :: "element \<Rightarrow> nat list \<Rightarrow> node list" where
  "ancestorsAt doc [] = []"
| "ancestorsAt doc (i # p) =
     (case lookup doc (rev p) of None \<Rightarrow> [] | Some e \<Rightarrow> (p, e) # ancestorsAt doc p)"

definition ancestors :: "element \<Rightarrow> node \<Rightarrow> node list" where
  "ancestors doc n = ancestorsAt doc (path n)"

text \<open>\<^verbatim>\<open>a.contains(b)\<close>: \<open>b\<close> is \<open>a\<close> or a descendant of \<open>a\<close>.\<close>

definition contains :: "node \<Rightarrow> node \<Rightarrow> bool" where
  "contains a b = suffix (path a) (path b)"

subsection \<open>Attributes and selectors\<close>

definition getAttribute :: "props \<Rightarrow> string \<Rightarrow> jsstring option" where
  "getAttribute pr a = map_of (attributes pr) a"

definition hasAttribute :: "props \<Rightarrow> string \<Rightarrow> bool" where
  "hasAttribute pr a = (getAttribute pr a \<noteq> None)"

text \<open>The class names of an element: its \<^verbatim>\<open>class\<close> attribute split at ASCII white
  space.\<close>

definition isAsciiSpace :: "nat \<Rightarrow> bool" where
  "isAsciiSpace c = (c \<in> set [9, 10, 12, 13, 32])"

fun tokens :: "jsstring \<Rightarrow> jsstring list" where
  "tokens [] = []"
| "tokens (c # cs) =
     (if isAsciiSpace c then tokens cs
      else (case cs of [] \<Rightarrow> [[c]]
            | d # ds \<Rightarrow> (if isAsciiSpace d then [c] # tokens ds
                         else (case tokens cs of [] \<Rightarrow> [[c]] | t # ts \<Rightarrow> (c # t) # ts))))"

definition classList :: "props \<Rightarrow> jsstring list" where
  "classList pr = (case getAttribute pr ''class'' of None \<Rightarrow> [] | Some v \<Rightarrow> tokens v)"

text \<open>The simple selectors that occur in \<^verbatim>\<open>content.js\<close>: \<^verbatim>\<open>tag\<close>, \<^verbatim>\<open>[a]\<close>,
  \<^verbatim>\<open>[a="v"]\<close>, \<^verbatim>\<open>[a*="v"]\<close>, \<^verbatim>\<open>.c\<close> and \<^verbatim>\<open>tag[a]\<close>. A selector list (the
  comma) matches when one of its selectors does.\<close>

datatype selector =
    Tag string
  | HasAttr string
  | AttrEq string jsstring
  | AttrSub string jsstring
  | Class jsstring
  | TagAttr string string

fun matches1 :: "props \<Rightarrow> selector \<Rightarrow> bool" where
  "matches1 pr (Tag t) = (localName pr = t)"
| "matches1 pr (HasAttr a) = hasAttribute pr a"
| "matches1 pr (AttrEq a v) = (getAttribute pr a = Some v)"
| "matches1 pr (AttrSub a v) =
     (case getAttribute pr a of None \<Rightarrow> False | Some x \<Rightarrow> v \<noteq> [] \<and> includesStr x v)"
| "matches1 pr (Class c) = (c \<in> set (classList pr))"
| "matches1 pr (TagAttr t a) = (localName pr = t \<and> hasAttribute pr a)"

definition matches :: "selector list \<Rightarrow> node \<Rightarrow> bool" where
  "matches sels n = list_ex (matches1 (el n)) sels"

text \<open>\<^verbatim>\<open>document.querySelectorAll\<close> ranges over every element of the document,
  \<^verbatim>\<open>el.querySelectorAll\<close> over the descendants of \<open>el\<close>; both answer in document
  order. \<^verbatim>\<open>el.closest\<close> is the first of the element and its ancestors that matches.\<close>

definition document_querySelectorAll :: "element \<Rightarrow> selector list \<Rightarrow> node list" where
  "document_querySelectorAll doc sels = filter (matches sels) (subtree [] doc)"

definition querySelectorAll :: "node \<Rightarrow> selector list \<Rightarrow> node list" where
  "querySelectorAll n sels = filter (matches sels) (tl (subtree (path n) (snd n)))"

definition closest :: "element \<Rightarrow> node \<Rightarrow> selector list \<Rightarrow> node option" where
  "closest doc n sels = List.find (matches sels) (n # ancestors doc n)"

section \<open>The content script\<close>

text \<open>
  The model follows the second program of \<^verbatim>\<open>content.js\<close> (the one with the named
  constants); the first program in the file is an earlier revision of the same script.

  \<open>isPotentialPrice\<close>, \<open>titleOk\<close>, \<open>scanTitles\<close>, \<open>climb\<close> and \<open>processPriceElement\<close>
  give the checks, the loops and the callback as they run on HTML elements, where
  reading a text never throws. \<open>filterCallback\<close>, \<open>titleLoop\<close>, \<open>climbLoop\<close> and
  \<open>callback\<close> are the same code with the TypeError of \<^verbatim>\<open>el.innerText.trim()\<close> on an
  element that is not an HTML element; \<open>forEach\<close> and \<open>detectProducts\<close> run these. Whenever
  they return, they return what the former compute (\<open>titleLoop_Inr\<close>, \<open>climbLoop_Inr\<close>,
  \<open>callback_Inr\<close>, \<open>scanPriceElements_Inr\<close>), and on a page of HTML elements they are
  the former (\<open>titleLoop_html\<close>, \<open>climbLoop_html\<close>, \<open>scanPriceElements_html\<close>).

  The script changes the page while it runs: it appends a style sheet, adds a highlight
  class to the image, the title and the price element of every record, and appends a
  notification. The classes change the layout, and each callback of \<^verbatim>\<open>forEach\<close> reads
  the document as the callbacks before it have left it (\<open>rendered\<close>).
\<close>

definition MIN_CONTAINER_WIDTH :: nat where "MIN_CONTAINER_WIDTH = 100"
definition MAX_CONTAINER_WIDTH :: nat where "MAX_CONTAINER_WIDTH = 1000"
definition MIN_CONTAINER_HEIGHT :: nat where "MIN_CONTAINER_HEIGHT = 100"
definition MAX_CONTAINER_HEIGHT :: nat where "MAX_CONTAINER_HEIGHT = 1500"
definition MIN_IMAGE_SIZE_PX :: nat where "MIN_IMAGE_SIZE_PX = 60"
definition MIN_NATURAL_IMAGE_SIZE_PX :: nat where "MIN_NATURAL_IMAGE_SIZE_PX = 50"
definition MAX_TITLE_LENGTH :: nat where "MAX_TITLE_LENGTH = 200"
definition MIN_TITLE_LENGTH :: nat where "MIN_TITLE_LENGTH = 5"
definition MAX_TEXT_ELEMENT_LENGTH :: nat where "MAX_TEXT_ELEMENT_LENGTH = 50"

definition priceSelectors :: "selector list" where
  "priceSelectors =
     [Tag ''span'', Tag ''div'', Tag ''p'', Tag ''strong'', Tag ''b'', Tag ''ins'', Tag ''a'',
      AttrEq ''itemprop'' (js ''price''), HasAttr ''data-price'', HasAttr ''data-saleprice'']"

definition reviewContainerSelectors :: "selector list" where
  "reviewContainerSelectors =
     [AttrEq ''itemprop'' (js ''review''), AttrSub ''class'' (js ''review-section''),
      AttrSub ''id'' (js ''reviews''), AttrSub ''class'' (js ''rating-summary''),
      AttrSub ''class'' (js ''customer-reviews''), AttrSub ''aria-label'' (js ''rating''),
      AttrSub ''data-testid'' (js ''review''), AttrSub ''data-qa'' (js ''review''),
      Class (js ''reviews''), Class (js ''product-reviews''), Class (js ''rating-stars''),
      Class (js ''star-rating''), Class (js ''score'')]"

definition titleSelectors :: "selector list" where
  "titleSelectors =
     [Tag ''h1'', Tag ''h2'', Tag ''h3'', Tag ''h4'', Tag ''h5'', Tag ''h6'', TagAttr ''a'' ''href'',
      AttrEq ''role'' (js ''heading''), AttrEq ''itemprop'' (js ''name''),
      Class (js ''product-title''), Class (js ''item-name'')]"

subsection \<open>Step 1: the price elements\<close>

definition itempropIncludes :: "props \<Rightarrow> jsstring \<Rightarrow> bool" where
  "itempropIncludes pr w =
     (case getAttribute pr ''itemprop'' of None \<Rightarrow> False
      | Some v \<Rightarrow> includesStr (toLowerCase v) w)"

definition hasSemanticPriceAttr :: "props \<Rightarrow> bool" where
  "hasSemanticPriceAttr pr =
     (hasAttribute pr ''data-price'' \<or> hasAttribute pr ''data-saleprice''
      \<or> (hasAttribute pr ''itemprop'' \<and> itempropIncludes pr (js ''price'')))"

definition isReviewElement :: "props \<Rightarrow> bool" where
  "isReviewElement pr =
     ((hasAttribute pr ''itemprop''
        \<and> (itempropIncludes pr (js ''reviewrating'') \<or> itempropIncludes pr (js ''ratingvalue'')))
      \<or> hasAttribute pr ''data-rating'')"

text \<open>The last three checks of the filter callback, on the trimmed text: the review
  pattern, then the price pattern, then the semantic price attribute.\<close>

definition priceTextCheck :: "jsstring \<Rightarrow> bool \<Rightarrow> bool" where
  "priceTextCheck text semanticAttr =
     (if reviewPattern_test text then False
      else if priceRegex_test text then True
      else semanticAttr)"

text \<open>The callback of \<^verbatim>\<open>filter\<close>, check by check in the order of the source.\<close>

definition isPotentialPrice :: "element \<Rightarrow> node \<Rightarrow> bool" where
  "isPotentialPrice doc n =
     (if offsetParentNull (el n) \<or> offsetWidth (el n) = 0 \<or> offsetHeight (el n) = 0 then False
      else let text = trim (innerText (el n)) in
        if length text = 0 \<or> length text > MAX_TEXT_ELEMENT_LENGTH then False
        else if closest doc n reviewContainerSelectors \<noteq> None then False
        else if isReviewElement (el n) then False
        else priceTextCheck text (hasSemanticPriceAttr (el n)))"

definition potentialPriceElements :: "element \<Rightarrow> node list" where
  "potentialPriceElements doc =
     filter (isPotentialPrice doc) (document_querySelectorAll doc priceSelectors)"

subsection \<open>Steps 3 to 6: the climb\<close>

text \<open>The test of \<^verbatim>\<open>find\<close>. On an image that is not an HTML element
  \<^verbatim>\<open>img.offsetWidth > MIN_IMAGE_SIZE_PX\<close> compares \<^verbatim>\<open>undefined\<close> and is false.\<close>

definition imageOk :: "props \<Rightarrow> bool" where
  "imageOk pr =
     (htmlElement pr \<and> \<not> offsetParentNull pr
      \<and> offsetWidth pr > MIN_IMAGE_SIZE_PX \<and> offsetHeight pr > MIN_IMAGE_SIZE_PX
      \<and> ((src pr \<noteq> [] \<and> \<not> startsWith (src pr) (js ''data:image/gif;base64'')
            \<and> \<not> includesStr (src pr) (js ''blank.gif''))
         \<or> truthy (getAttribute pr ''data-src'')
         \<or> truthy (getAttribute pr ''data-lazyload'')
         \<or> truthy (getAttribute pr ''data-src'')
         \<or> srcset pr \<noteq> []
         \<or> (naturalWidth pr > MIN_NATURAL_IMAGE_SIZE_PX
             \<and> naturalHeight pr > MIN_NATURAL_IMAGE_SIZE_PX \<and> loading pr = [])))"

definition findImage :: "node \<Rightarrow> node option" where
  "findImage cur = List.find (\<lambda>i. imageOk (el i)) (querySelectorAll cur [Tag ''img''])"

definition titleOk :: "node \<Rightarrow> node \<Rightarrow> bool" where
  "titleOk priceElement e =
     (let titleText = trim (innerText (el e)) in
        titleText \<noteq> []
        \<and> length titleText \<ge> MIN_TITLE_LENGTH \<and> length titleText \<le> MAX_TITLE_LENGTH
        \<and> \<not> contains e priceElement
        \<and> \<not> priceRegex_test titleText
        \<and> \<not> numericRegex_test titleText
        \<and> \<not> reviewPattern_test titleText
        \<and> \<not> offsetParentNull (el e)
        \<and> offsetWidth (el e) > 0 \<and> offsetHeight (el e) > 0)"

text \<open>The \<^verbatim>\<open>for (const el of potentialTitles)\<close> loop: it assigns \<^verbatim>\<open>title\<close> at the
  first element that passes and breaks; with no such element \<^verbatim>\<open>title\<close> keeps the
  value it had.\<close>

fun scanTitles :: "node \<Rightarrow> node list \<Rightarrow> node option \<Rightarrow> node option" where
  "scanTitles priceElement [] ttl = ttl"
| "scanTitles priceElement (e # es) ttl =
     (if titleOk priceElement e then Some e else scanTitles priceElement es ttl)"

text \<open>The size check of the climb. On an ancestor that is not an HTML element the four
  comparisons read \<^verbatim>\<open>undefined\<close> and are false: the check lets it through.\<close>

definition sizeOutOfBounds :: "props \<Rightarrow> bool" where
  "sizeOutOfBounds pr =
     (htmlElement pr
      \<and> (offsetWidth pr < MIN_CONTAINER_WIDTH \<or> offsetHeight pr < MIN_CONTAINER_HEIGHT
         \<or> offsetWidth pr > MAX_CONTAINER_WIDTH \<or> offsetHeight pr > MAX_CONTAINER_HEIGHT))"

text \<open>
  The \<^verbatim>\<open>for (let i = 0; i < 10 && currentElement && currentElement.parentElement; i++)\<close>
  loop. The variables \<^verbatim>\<open>image\<close> and \<^verbatim>\<open>title\<close> are declared before the loop and keep
  their values from one iteration to the next, so the loop carries them; the result is
  \<^verbatim>\<open>productContainer\<close>, \<^verbatim>\<open>image\<close> and \<^verbatim>\<open>title\<close> after the loop. The processed
  containers are the positions in the \<^verbatim>\<open>Set\<close>, in insertion order.
\<close>

function climb ::
  "element \<Rightarrow> nat list list \<Rightarrow> node \<Rightarrow> nat \<Rightarrow> node \<Rightarrow> node option \<Rightarrow> node option
     \<Rightarrow> node option \<times> node option \<times> node option" where
  "climb doc processed priceElement i currentElement img ttl =
     (if i < 10 then
        (case parentElement doc currentElement of
           None \<Rightarrow> (None, img, ttl)
         | Some cur \<Rightarrow>
             if path cur \<in> set processed then climb doc processed priceElement (Suc i) cur img ttl
             else if sizeOutOfBounds (el cur) then climb doc processed priceElement (Suc i) cur img ttl
             else
               let img' = findImage cur;
                   ttl' = (if img' \<noteq> None
                           then scanTitles priceElement (querySelectorAll cur titleSelectors) ttl
                           else ttl)
               in if img' \<noteq> None \<and> ttl' \<noteq> None then (Some cur, img', ttl')
                  else climb doc processed priceElement (Suc i) cur img' ttl')
      else (None, img, ttl))"
  by pat_completeness auto
termination
  by (relation "measure (\<lambda>(doc, processed, priceElement, i, rest). 10 - i)") auto

declare climb.simps [simp del]

subsection \<open>Step 7: the record\<close>

text \<open>The image URL. \<^verbatim>\<open>image.dataset.src\<close> and \<^verbatim>\<open>image.dataset.lazyload\<close> read the
  attributes \<^verbatim>\<open>data-src\<close> and \<^verbatim>\<open>data-lazyload\<close>.\<close>

definition startsWithOpt :: "jsstring option \<Rightarrow> jsstring \<Rightarrow> bool" where
  "startsWithOpt v p = (case v of None \<Rightarrow> False | Some s \<Rightarrow> startsWith s p)"

definition lazyLoadUrl :: "props \<Rightarrow> jsstring option" where
  "lazyLoadUrl pr =
     jsor (getAttribute pr ''data-src'')
       (jsor (getAttribute pr ''data-lazyload'') (getAttribute pr ''data-src''))"

definition srcsetLast :: "jsstring \<Rightarrow> jsstring option \<Rightarrow> jsstring option" where
  "srcsetLast ss current =
     (let srcsetParts = map (\<lambda>s. split 32 (trim s)) (split 44 ss) in
        if length srcsetParts > 0
        then (case last srcsetParts of [] \<Rightarrow> None | u # _ \<Rightarrow> Some u)
        else current)"

definition actualImageUrl :: "props \<Rightarrow> jsstring" where
  "actualImageUrl pr =
     (let a1 = (if src pr = [] \<or> startsWith (src pr) (js ''data:image/gif;base64'')
                   \<or> includesStr (src pr) (js ''blank.gif'')
                then lazyLoadUrl pr else Some (src pr));
          a2 = (if (\<not> truthy a1 \<or> startsWithOpt a1 (js ''data:image/gif'')) \<and> srcset pr \<noteq> []
                then srcsetLast (srcset pr) a1 else a1)
      in case a2 of None \<Rightarrow> js ''N/A''
         | Some u \<Rightarrow> if u = [] \<or> startsWith u (js ''data:'') then js ''N/A'' else u)"

record ProductRecord =
  title :: jsstring
  price :: jsstring
  imageUrl :: jsstring

text \<open>
  The state of a pass: the processed containers, and every pushed record together with
  the container and the price element it was pushed for (the values of
  \<^verbatim>\<open>productContainer\<close> and \<^verbatim>\<open>priceElement\<close> at the push). \<open>results\<close> is the array the
  script returns.
\<close>

record pass_state =
  emitted :: "(node \<times> node \<times> ProductRecord) list"
  processedContainers :: "nat list list"

definition results :: "pass_state \<Rightarrow> ProductRecord list" where
  "results st = map (\<lambda>(c, p, r). r) (emitted st)"

definition containers :: "pass_state \<Rightarrow> node list" where
  "containers st = map (\<lambda>(c, p, r). c) (emitted st)"

definition set_add :: "nat list list \<Rightarrow> nat list \<Rightarrow> nat list list" where
  "set_add s x = (if x \<in> set s then s else s @ [x])"

datatype error = TypeError

text \<open>The callback of \<^verbatim>\<open>forEach\<close>, with the climb as it runs on HTML elements;
  \<open>makeRecord\<close> is the object it pushes. Reading \<^verbatim>\<open>image.src\<close> when \<^verbatim>\<open>image\<close> is not
  an element throws.\<close>

definition makeRecord :: "node option \<Rightarrow> node \<Rightarrow> node \<Rightarrow> ProductRecord" where
  "makeRecord ttl priceElement i =
     \<lparr>title = (case ttl of Some t \<Rightarrow> trim (innerText (el t)) | None \<Rightarrow> js ''N/A''),
      price = trim (innerText (el priceElement)),
      imageUrl = actualImageUrl (el i)\<rparr>"

definition processPriceElement :: "element \<Rightarrow> pass_state \<Rightarrow> node \<Rightarrow> error + pass_state" where
  "processPriceElement doc st priceElement =
     (case climb doc (processedContainers st) priceElement 0 priceElement None None of
        (None, img, ttl) \<Rightarrow> Inr st
      | (Some productContainer, img, ttl) \<Rightarrow>
          (case img of
             None \<Rightarrow> Inl TypeError
           | Some i \<Rightarrow>
               Inr \<lparr>emitted = emitted st @
                      [(productContainer, priceElement, makeRecord ttl priceElement i)],
                    processedContainers =
                      set_add (processedContainers st) (path productContainer)\<rparr>))"

subsection \<open>The loops with their exceptions\<close>

text \<open>The filter callback. On an element that is not an HTML element none of the three
  comparisons of the visibility check is true (\<^verbatim>\<open>undefined === null\<close> and
  \<^verbatim>\<open>undefined === 0\<close> are false), and \<^verbatim>\<open>el.innerText.trim()\<close> throws.\<close>

definition filterCallback :: "element \<Rightarrow> node \<Rightarrow> error + bool" where
  "filterCallback doc n =
     (if \<not> htmlElement (el n) then Inl TypeError else Inr (isPotentialPrice doc n))"

text \<open>\<^verbatim>\<open>Array.prototype.filter\<close> with a callback that may throw.\<close>

fun filterE :: "(node \<Rightarrow> error + bool) \<Rightarrow> node list \<Rightarrow> error + node list" where
  "filterE f [] = Inr []"
| "filterE f (x # xs) =
     (case f x of
        Inl e \<Rightarrow> Inl e
      | Inr b \<Rightarrow> (case filterE f xs of
                   Inl e \<Rightarrow> Inl e
                 | Inr ys \<Rightarrow> Inr (if b then x # ys else ys)))"

definition scanPriceElements :: "element \<Rightarrow> error + node list" where
  "scanPriceElements doc =
     filterE (filterCallback doc) (document_querySelectorAll doc priceSelectors)"

text \<open>The title loop: \<^verbatim>\<open>const titleText = el.innerText.trim()\<close> is its first
  statement.\<close>

fun titleLoop :: "node \<Rightarrow> node list \<Rightarrow> node option \<Rightarrow> error + node option" where
  "titleLoop priceElement [] ttl = Inr ttl"
| "titleLoop priceElement (e # es) ttl =
     (if \<not> htmlElement (el e) then Inl TypeError
      else if titleOk priceElement e then Inr (Some e)
      else titleLoop priceElement es ttl)"

function climbLoop ::
  "element \<Rightarrow> nat list list \<Rightarrow> node \<Rightarrow> nat \<Rightarrow> node \<Rightarrow> node option \<Rightarrow> node option
     \<Rightarrow> error + (node option \<times> node option \<times> node option)" where
  "climbLoop doc processed priceElement i currentElement img ttl =
     (if i < 10 then
        (case parentElement doc currentElement of
           None \<Rightarrow> Inr (None, img, ttl)
         | Some cur \<Rightarrow>
             if path cur \<in> set processed
             then climbLoop doc processed priceElement (Suc i) cur img ttl
             else if sizeOutOfBounds (el cur)
             then climbLoop doc processed priceElement (Suc i) cur img ttl
             else
               (case (if findImage cur \<noteq> None
                      then titleLoop priceElement (querySelectorAll cur titleSelectors) ttl
                      else Inr ttl) of
                  Inl e \<Rightarrow> Inl e
                | Inr ttl' \<Rightarrow>
                    if findImage cur \<noteq> None \<and> ttl' \<noteq> None
                    then Inr (Some cur, findImage cur, ttl')
                    else climbLoop doc processed priceElement (Suc i) cur (findImage cur) ttl'))
      else Inr (None, img, ttl))"
  by pat_completeness auto
termination
  by (relation "measure (\<lambda>(doc, processed, priceElement, i, rest). 10 - i)") auto

declare climbLoop.simps [simp del]

text \<open>
  The callback of \<^verbatim>\<open>forEach\<close> with what it highlights: the positions of the image, the
  title and the price element that get the classes
  \<^verbatim>\<open>product-detector-highlight-image\<close>, \<^verbatim>\<open>-title\<close> and \<^verbatim>\<open>-price\<close>. The tree it is
  given is the document as it is rendered when the callback runs; the price element is
  the reference the filter kept, of which the callback reads the position and, for the
  record, the text (no highlight changes a text).
\<close>

type_synonym highlight = "nat list \<times> nat list option \<times> nat list"

definition callback ::
  "element \<Rightarrow> pass_state \<Rightarrow> node \<Rightarrow> error + (pass_state \<times> highlight list)" where
  "callback doc st priceElement =
     (case climbLoop doc (processedContainers st) priceElement 0 priceElement None None of
        Inl e \<Rightarrow> Inl e
      | Inr (None, img, ttl) \<Rightarrow> Inr (st, [])
      | Inr (Some productContainer, img, ttl) \<Rightarrow>
          (case img of
             None \<Rightarrow> Inl TypeError
           | Some i \<Rightarrow>
               Inr (\<lparr>emitted = emitted st @
                       [(productContainer, priceElement, makeRecord ttl priceElement i)],
                     processedContainers =
                       set_add (processedContainers st) (path productContainer)\<rparr>,
                    [(path i, map_option path ttl, path priceElement)])))"

subsection \<open>The highlight and the layout\<close>

text \<open>
  \<^verbatim>\<open>classList.add(token)\<close>: the class attribute becomes the element's class names,
  each once and in their order, followed by the token if it is not among them, joined
  by single spaces.
\<close>

fun setAttribute :: "string \<Rightarrow> jsstring \<Rightarrow> (string \<times> jsstring) list \<Rightarrow> (string \<times> jsstring) list" where
  "setAttribute k v [] = [(k, v)]"
| "setAttribute k v ((k', v') # as) =
     (if k = k' then (k, v) # as else (k', v') # setAttribute k v as)"

fun joinSpace :: "jsstring list \<Rightarrow> jsstring" where
  "joinSpace [] = []"
| "joinSpace [t] = t"
| "joinSpace (t # u # ts) = t @ [32] @ joinSpace (u # ts)"

definition classList_add :: "jsstring \<Rightarrow> (string \<times> jsstring) list \<Rightarrow> (string \<times> jsstring) list" where
  "classList_add token as =
     (let ts = (case map_of as ''class'' of None \<Rightarrow> [] | Some v \<Rightarrow> rev (remdups (rev (tokens v))))
      in setAttribute ''class'' (joinSpace (if token \<in> set ts then ts else ts @ [token])) as)"

text \<open>The classes the highlights add to the element at a position, in the order of
  the calls.\<close>

fun classesAdded :: "highlight list \<Rightarrow> nat list \<Rightarrow> jsstring list" where
  "classesAdded [] p = []"
| "classesAdded ((i, t, pe) # hs) p =
     (if p = i then [js ''product-detector-highlight-image''] else [])
     @ (if t = Some p then [js ''product-detector-highlight-title''] else [])
     @ (if p = pe then [js ''product-detector-highlight-price''] else [])
     @ classesAdded hs p"

text \<open>
  The injected style sheet gives the three classes a border and paddings
  (\<^verbatim>\<open>padding: 2px 4px !important\<close>), so each highlight changes the layout, and the climbs
  of the later callbacks read \<^verbatim>\<open>offsetWidth\<close> and \<^verbatim>\<open>offsetHeight\<close> of the new layout.
  What the layout engine answers is an input of the model: a \<open>layout\<close> gives, for the
  highlights applied so far, the offset width and height of the element at each
  position. \<open>rendered\<close> is the document as the script reads it after these highlights:
  the classes are added and the sizes are those of the layout; before the first
  highlight it is the document itself. Nothing else of an element changes.
\<close>

type_synonym layout = "highlight list \<Rightarrow> nat list \<Rightarrow> nat \<times> nat"

fun relayout :: "(nat list \<Rightarrow> nat \<times> nat) \<Rightarrow> highlight list \<Rightarrow> nat list \<Rightarrow> element \<Rightarrow> element"
  and relayoutForest ::
    "(nat list \<Rightarrow> nat \<times> nat) \<Rightarrow> highlight list \<Rightarrow> nat list \<Rightarrow> nat \<Rightarrow> element list \<Rightarrow> element list" where
  "relayout g hs p (Element pr cs) =
     Element (pr\<lparr>attributes := foldl (\<lambda>as token. classList_add token as) (attributes pr) (classesAdded hs p),
                offsetWidth := fst (g p), offsetHeight := snd (g p)\<rparr>)
       (relayoutForest g hs p 0 cs)"
| "relayoutForest g hs p i [] = []"
| "relayoutForest g hs p i (c # cs) = relayout g hs (i # p) c # relayoutForest g hs p (Suc i) cs"

definition rendered :: "layout \<Rightarrow> highlight list \<Rightarrow> element \<Rightarrow> element" where
  "rendered L hs doc = (if hs = [] then doc else relayout (L hs) hs [] doc)"

text \<open>\<^verbatim>\<open>potentialPriceElements.forEach\<close>: each callback runs on the document as the
  highlights of the callbacks before it have left it.\<close>

fun forEach ::
  "layout \<Rightarrow> element \<Rightarrow> highlight list \<Rightarrow> pass_state \<Rightarrow> node list \<Rightarrow> error + pass_state" where
  "forEach L doc hs st [] = Inr st"
| "forEach L doc hs st (p # ps) =
     (case callback (rendered L hs doc) st p of
        Inl e \<Rightarrow> Inl e
      | Inr (st', h) \<Rightarrow> forEach L doc (hs @ h) st' ps)"

text \<open>The notification: the message and its type (\<^verbatim>\<open>'info'\<close> by default).\<close>

definition notification :: "ProductRecord list \<Rightarrow> jsstring \<times> string" where
  "notification rs =
     (if length rs > 0
      then (showNat (length rs) @ js '' product(s) detected and highlighted!'', ''info'')
      else (js ''No products detected on this page.'', ''error''))"

text \<open>
  \<^verbatim>\<open>document.head\<close> is the first \<^verbatim>\<open>head\<close> child of the \<^verbatim>\<open>html\<close> root element and
  \<^verbatim>\<open>document.body\<close> its first \<^verbatim>\<open>body\<close> or \<^verbatim>\<open>frameset\<close> child; both are \<^verbatim>\<open>null\<close> when
  there is none. \<^verbatim>\<open>injectStyles\<close> calls \<^verbatim>\<open>document.head.appendChild\<close>, and
  \<^verbatim>\<open>displayPageNotification\<close> calls \<^verbatim>\<open>document.body.appendChild\<close> unless an element
  with the id \<^verbatim>\<open>product-detector-notification\<close> is already there: on \<^verbatim>\<open>null\<close> each
  throws a TypeError. The tree of the model does not hold the two elements they append:
  each is appended after the last child, so no position changes; the \<^verbatim>\<open>style\<close> element
  is matched by none of the selectors of the script, and the \<^verbatim>\<open>div\<close> is appended when
  the scan and the loop are over.
\<close>

fun elProps :: "element \<Rightarrow> props" where
  "elProps (Element pr cs) = pr"

fun children :: "element \<Rightarrow> element list" where
  "children (Element pr cs) = cs"

definition isHtml :: "string list \<Rightarrow> element \<Rightarrow> bool" where
  "isHtml names e = (htmlElement (elProps e) \<and> localName (elProps e) \<in> set names)"

definition document_head :: "element \<Rightarrow> element option" where
  "document_head doc =
     (if isHtml [''html''] doc then List.find (isHtml [''head'']) (children doc) else None)"

definition document_body :: "element \<Rightarrow> element option" where
  "document_body doc =
     (if isHtml [''html''] doc then List.find (isHtml [''body'', ''frameset'']) (children doc)
      else None)"

definition getElementById :: "element \<Rightarrow> jsstring \<Rightarrow> node option" where
  "getElementById doc v =
     List.find (\<lambda>n. getAttribute (el n) ''id'' = Some v) (subtree [] doc)"

definition injectStyles :: "element \<Rightarrow> error + unit" where
  "injectStyles doc = (case document_head doc of None \<Rightarrow> Inl TypeError | Some h \<Rightarrow> Inr ())"

definition displayPageNotification :: "element \<Rightarrow> error + unit" where
  "displayPageNotification doc =
     (case getElementById doc (js ''product-detector-notification'') of
        Some n \<Rightarrow> Inr ()
      | None \<Rightarrow> (case document_body doc of None \<Rightarrow> Inl TypeError | Some b \<Rightarrow> Inr ()))"

text \<open>The whole script: \<^verbatim>\<open>injectStyles()\<close>, the filter, \<^verbatim>\<open>forEach\<close>, the notification.
  It answers the final state (its \<open>results\<close> are the returned array) and the
  notification shown.\<close>

definition detectProducts ::
  "layout \<Rightarrow> element \<Rightarrow> error + (pass_state \<times> (jsstring \<times> string))" where
  "detectProducts L doc =
     (case injectStyles doc of
        Inl e \<Rightarrow> Inl e
      | Inr u \<Rightarrow>
          (case scanPriceElements doc of
             Inl e \<Rightarrow> Inl e
           | Inr ps \<Rightarrow>
               (case forEach L doc [] \<lparr>emitted = [], processedContainers = []\<rparr> ps of
                  Inl e \<Rightarrow> Inl e
                | Inr st \<Rightarrow>
                    (case displayPageNotification doc of
                       Inl e \<Rightarrow> Inl e
                     | Inr u' \<Rightarrow> Inr (st, notification (results st))))))"

subsection \<open>The earlier revision: the bounded review climb\<close>

text \<open>
  The first program of \<^verbatim>\<open>content.js\<close> does not call \<^verbatim>\<open>closest\<close>: its filter climbs
  from the element with \<^verbatim>\<open>for (let i = 0; i < 6 && current; i++)\<close> and stops at the
  first element that matches the review-container selectors, so it looks at the element
  and at most five ancestors.
\<close>

function isInReviewContainer :: "element \<Rightarrow> nat \<Rightarrow> node option \<Rightarrow> bool" where
  "isInReviewContainer doc i current =
     (if i < 6 then
        (case current of
           None \<Rightarrow> False
         | Some c \<Rightarrow>
             if matches reviewContainerSelectors c then True
             else isInReviewContainer doc (Suc i) (parentElement doc c))
      else False)"
  by pat_completeness auto
termination
  by (relation "measure (\<lambda>(doc, i, current). 6 - i)") auto

declare isInReviewContainer.simps [simp del]

section \<open>The popup\<close>

text \<open>
  The click handler of the popup. \<^verbatim>\<open>chrome.scripting.executeScript\<close> either rejects
  (with a message) or answers one injection result per frame, whose \<^verbatim>\<open>result\<close> may be
  missing; \<^verbatim>\<open>chrome.downloads.download\<close> reports through \<^verbatim>\<open>chrome.runtime.lastError\<close>.
  Both are inputs of the model. The outcome is the status text, whether the button is
  left disabled, and the text offered for download.
\<close>

record popup =
  statusMessage :: jsstring
  highlightBtn_disabled :: bool
  download :: "jsstring option"

definition fileContent :: "ProductRecord list \<Rightarrow> jsstring" where
  "fileContent ps =
     concat (map (\<lambda>product.
       js ''Title: '' @ title product @ [10] @
       js ''Image: '' @ imageUrl product @ [10] @
       js ''Price: '' @ price product @ [10, 10]) ps)"

definition onClick ::
  "jsstring + ProductRecord list option list \<Rightarrow> jsstring option \<Rightarrow> popup" where
  "onClick injection lastError =
     (case injection of
        Inl message \<Rightarrow>
          \<lparr>statusMessage = js ''Error: '' @ message, highlightBtn_disabled = False, download = None\<rparr>
      | Inr injectionResults \<Rightarrow>
          let allProducts = concat (map (\<lambda>frame. case frame of None \<Rightarrow> [] | Some r \<Rightarrow> r)
                                     injectionResults)
          in if length allProducts = 0
             then \<lparr>statusMessage = js ''No products were detected.'',
                   highlightBtn_disabled = True, download = None\<rparr>
             else (case lastError of
                     Some message \<Rightarrow>
                       \<lparr>statusMessage = js ''Download failed: '' @ message,
                        highlightBtn_disabled = False, download = Some (fileContent allProducts)\<rparr>
                   | None \<Rightarrow>
                       \<lparr>statusMessage = js ''Downloaded '' @ showNat (length allProducts)
                                          @ js '' product(s)!'',
                        highlightBtn_disabled = False, download = Some (fileContent allProducts)\<rparr>))"

section \<open>Notions the properties are stated with\<close>

text \<open>Title resolution at an ancestor: the title loop started with no title.\<close>

definition findTitle :: "node \<Rightarrow> node \<Rightarrow> node option" where
  "findTitle priceElement cur = scanTitles priceElement (querySelectorAll cur titleSelectors) None"

text \<open>An ancestor qualifies as the container of a price element when it is not yet
  processed, within the size bounds, and both an image and a title resolve in it.\<close>

definition qualifies :: "nat list list \<Rightarrow> node \<Rightarrow> node \<Rightarrow> bool" where
  "qualifies processed priceElement a =
     (path a \<notin> set processed \<and> \<not> sizeOutOfBounds (el a)
      \<and> findImage a \<noteq> None \<and> findTitle priceElement a \<noteq> None)"

text \<open>What holds of every pushed record: its price element passed the filter, its
  price is the trimmed text of the price element, and its container is one of the first
  ten ancestors of the price element in the document as it was rendered when the
  callback ran, within the size bounds there.\<close>

definition emittedOk :: "layout \<Rightarrow> element \<Rightarrow> node \<times> node \<times> ProductRecord \<Rightarrow> bool" where
  "emittedOk L doc x =
     (case x of (c, p, r) \<Rightarrow>
        p \<in> set (potentialPriceElements doc) \<and> \<not> sizeOutOfBounds (el c)
        \<and> price r = trim (innerText (el p))
        \<and> (\<exists>hs. c \<in> set (take 10 (ancestors (rendered L hs doc) p))))"

text \<open>Every element of a tree is an HTML element.\<close>

fun allHtml :: "element \<Rightarrow> bool" where
  "allHtml (Element pr cs) = (htmlElement pr \<and> list_all allHtml cs)"

text \<open>The price elements of the pushed records.\<close>

definition priceElements :: "pass_state \<Rightarrow> node list" where
  "priceElements st = map (\<lambda>(c, p, r). p) (emitted st)"

subsection \<open>The steps of the image URL\<close>

text \<open>The direct source is kept when the first \<^verbatim>\<open>if\<close> of the resolution does not
  replace it; \<open>firstChoice\<close> is the value after that \<^verbatim>\<open>if\<close>; the source set overrides
  it when the second \<^verbatim>\<open>if\<close> fires; \<open>srcsetLastUrl\<close> is the first field of the last
  entry of the source set; \<open>orNA\<close> is the final fallback.\<close>

definition keptSource :: "props \<Rightarrow> bool" where
  "keptSource pr =
     (src pr \<noteq> [] \<and> \<not> startsWith (src pr) (js ''data:image/gif;base64'')
      \<and> \<not> includesStr (src pr) (js ''blank.gif''))"

definition firstChoice :: "props \<Rightarrow> jsstring option" where
  "firstChoice pr = (if keptSource pr then Some (src pr) else lazyLoadUrl pr)"

definition srcsetOverrides :: "props \<Rightarrow> bool" where
  "srcsetOverrides pr =
     ((\<not> truthy (firstChoice pr) \<or> startsWithOpt (firstChoice pr) (js ''data:image/gif''))
      \<and> srcset pr \<noteq> [])"

definition srcsetLastUrl :: "props \<Rightarrow> jsstring option" where
  "srcsetLastUrl pr =
     (case split 32 (trim (last (split 44 (srcset pr)))) of [] \<Rightarrow> None | u # rest \<Rightarrow> Some u)"

definition orNA :: "jsstring option \<Rightarrow> jsstring" where
  "orNA v = (case v of None \<Rightarrow> js ''N/A''
             | Some u \<Rightarrow> if u = [] \<or> startsWith u (js ''data:'') then js ''N/A'' else u)"

subsection \<open>The precedence of the image URL as the specification words it\<close>

text \<open>
  The specification's precedence: (a) the direct source if present and not a known
  placeholder, (b) otherwise the lazy-load attributes, (c) otherwise the last entry of
  the source set, (d) \<^verbatim>\<open>N/A\<close> if none resolves or the resolved value is a data URI. The
  placeholder test is a parameter: \<open>isPlaceholder\<close> reads "blank-gif or gif data URI",
  \<open>isPlaceholderBase64\<close> is the narrower test of the source's first \<^verbatim>\<open>if\<close>.
\<close>

definition isPlaceholder :: "jsstring \<Rightarrow> bool" where
  "isPlaceholder s = (includesStr s (js ''blank.gif'') \<or> startsWith s (js ''data:image/gif''))"

definition isPlaceholderBase64 :: "jsstring \<Rightarrow> bool" where
  "isPlaceholderBase64 s =
     (includesStr s (js ''blank.gif'') \<or> startsWith s (js ''data:image/gif;base64''))"

definition claimedImageUrl :: "(jsstring \<Rightarrow> bool) \<Rightarrow> props \<Rightarrow> jsstring" where
  "claimedImageUrl placeholder pr =
     (let resolved =
        (if src pr \<noteq> [] \<and> \<not> placeholder (src pr) then Some (src pr)
         else if truthy (lazyLoadUrl pr) then lazyLoadUrl pr
         else if srcset pr \<noteq> [] then srcsetLast (srcset pr) None
         else None)
      in case resolved of None \<Rightarrow> js ''N/A''
         | Some u \<Rightarrow> if u = [] \<or> startsWith u (js ''data:'') then js ''N/A'' else u)"

subsection \<open>Example documents\<close>

definition visibleEl ::
  "string \<Rightarrow> (string \<times> jsstring) list \<Rightarrow> jsstring \<Rightarrow> nat \<Rightarrow> nat \<Rightarrow> props" where
  "visibleEl t as txt w h =
     \<lparr>localName = t, htmlElement = True, attributes = as, innerText = txt,
      offsetParentNull = False, offsetWidth = w, offsetHeight = h, src = [], srcset = [],
      naturalWidth = 0, naturalHeight = 0, loading = []\<rparr>"

definition imgEl ::
  "(string \<times> jsstring) list \<Rightarrow> jsstring \<Rightarrow> jsstring \<Rightarrow> nat \<Rightarrow> nat \<Rightarrow> props" where
  "imgEl as s ss w h =
     \<lparr>localName = ''img'', htmlElement = True, attributes = as, innerText = [],
      offsetParentNull = False, offsetWidth = w, offsetHeight = h, src = s, srcset = ss,
      naturalWidth = w, naturalHeight = h, loading = js ''eager''\<rparr>"

text \<open>An SVG element: not an HTML element.\<close>

definition svgEl :: "string \<Rightarrow> (string \<times> jsstring) list \<Rightarrow> props" where
  "svgEl t as =
     \<lparr>localName = t, htmlElement = False, attributes = as, innerText = [],
      offsetParentNull = False, offsetWidth = 0, offsetHeight = 0, src = [], srcset = [],
      naturalWidth = 0, naturalHeight = 0, loading = []\<rparr>"

text \<open>An HTML page of a given size: the \<^verbatim>\<open>html\<close> element with an empty \<^verbatim>\<open>head\<close> (which
  has no layout box) and a \<^verbatim>\<open>body\<close> with the given children.\<close>

definition page :: "nat \<Rightarrow> nat \<Rightarrow> element list \<Rightarrow> element" where
  "page w h cs = Element (visibleEl ''html'' [] [] w h)
     [Element ((visibleEl ''head'' [] [] 0 0)\<lparr>offsetParentNull := True\<rparr>) [],
      Element (visibleEl ''body'' [] [] w h) cs]"

text \<open>A layout in which no highlight moves anything: every element keeps the size it
  has in the document.\<close>

definition noReflow :: "element \<Rightarrow> layout" where
  "noReflow doc hs p =
     (case lookup doc (rev p) of
        None \<Rightarrow> (0, 0)
      | Some e \<Rightarrow> (offsetWidth (elProps e), offsetHeight (elProps e)))"

text \<open>A product card of 300 by 200 pixels: an image, a heading and a price.\<close>

definition card :: "jsstring \<Rightarrow> jsstring \<Rightarrow> jsstring \<Rightarrow> element" where
  "card u t p = Element (visibleEl ''div'' [] (t @ [10] @ p) 300 200)
     [Element (imgEl [] u [] 120 120) [],
      Element (visibleEl ''h2'' [] t 200 30) [],
      Element (visibleEl ''span'' [] p 60 20) []]"

definition twoCards :: element where
  "twoCards = page 1200 3000
     [card (js ''a.jpg'') (js ''Wireless Mouse'') (js ''$19.99''),
      card (js ''b.jpg'') (js ''Mechanical Keyboard'') (js ''49,00 '' @ [8364])]"

text \<open>A page with one price and nothing else.\<close>

definition loneSpan :: "jsstring \<Rightarrow> element" where
  "loneSpan s = page 1200 3000 [Element (visibleEl ''span'' [] s 60 20) []]"


text \<open>A card whose only title candidate is a link around the price element, inside
  a larger block that also holds a heading.\<close>

definition wrappedPrice :: element where
  "wrappedPrice = page 1200 3000
     [Element (visibleEl ''div'' [] (js ''Sale Great Mouse Great Mouse Deluxe'') 400 300)
        [Element (visibleEl ''div'' [] (js ''Sale Great Mouse'') 300 200)
           [Element (imgEl [] (js ''a.jpg'') [] 120 120) [],
            Element (visibleEl ''a'' [(''href'', js ''/mouse'')] (js ''Sale Great Mouse'') 200 30)
              [Element (visibleEl ''span'' [(''data-price'', js ''19.99'')] (js ''Sale'') 60 20) []]],
         Element (visibleEl ''h2'' [] (js ''Great Mouse Deluxe'') 200 30) []]]"

text \<open>A card marked with the class \<^verbatim>\<open>reviews\<close>, and a page without any price.\<close>

definition reviewPage :: element where
  "reviewPage = page 1200 3000
     [Element (visibleEl ''div'' [(''class'', js ''box reviews'')] [] 300 200)
        [Element (imgEl [] (js ''a.jpg'') [] 120 120) [],
         Element (visibleEl ''h2'' [] (js ''Wireless Mouse'') 200 30) [],
         Element (visibleEl ''p'' [] [] 200 30)
           [Element (visibleEl ''span'' [] (js ''$19.99'') 60 20) []]]]"

definition plainPage :: element where
  "plainPage = page 1200 3000 [Element (visibleEl ''p'' [] (js ''Hello world'') 300 40) []]"

text \<open>The same page with an inline SVG drawing that holds a link, and an SVG document
  (an \<^verbatim>\<open>svg\<close> root element: there is no \<^verbatim>\<open>head\<close> and no \<^verbatim>\<open>body\<close>). Neither has a
  price.\<close>

definition svgLinkPage :: element where
  "svgLinkPage = page 1200 3000
     [Element (visibleEl ''p'' [] (js ''Hello world'') 300 40) [],
      Element (svgEl ''svg'' [])
        [Element (svgEl ''a'' [(''href'', js ''/home'')])
           [Element (svgEl ''circle'' []) []]]]"

definition svgDocument :: element where
  "svgDocument = Element (svgEl ''svg'' []) [Element (svgEl ''circle'' []) []]"

text \<open>
  A card of 300 by 200 pixels that holds a block sized by its content, 96 by 150
  pixels, with an image, a heading and two prices. \<open>growLayout\<close> is a layout in which the
  paddings of a highlighted heading and price widen that block to 104 by 154 pixels.
\<close>

definition growingCard :: element where
  "growingCard = page 1200 3000
     [Element (visibleEl ''div'' [] (js ''Wireless Mouse With Silent Buttons, Black $19.99 $24.99'') 300 200)
        [Element (visibleEl ''div'' [] (js ''Wireless Mouse With Silent Buttons, Black $19.99 $24.99'') 96 150)
           [Element (imgEl [] (js ''a.jpg'') [] 90 90) [],
            Element (visibleEl ''h3'' [] (js ''Wireless Mouse With Silent Buttons, Black'') 90 40) [],
            Element (visibleEl ''span'' [] (js ''$19.99'') 40 20) [],
            Element (visibleEl ''span'' [] (js ''$24.99'') 40 20) []]]]"

definition growLayout :: layout where
  "growLayout hs p =
     (if hs \<noteq> [] \<and> p = [0, 0, 1] then (104, 154) else noReflow growingCard hs p)"

text \<open>Images: a gif data URI that is not base64 with a lazy-load attribute and a
  source set; a plain source; a blank-gif source with a lazy-load attribute; a source
  set only; a png data URI.\<close>

definition gifDataImage :: props where
  "gifDataImage = imgEl [(''data-src'', js ''real.jpg'')] (js ''data:image/gif,AAAA'') (js ''x.jpg 2x'') 120 120"

definition plainImage :: props where
  "plainImage = imgEl [] (js ''a.jpg'') [] 120 120"

definition lazyImage :: props where
  "lazyImage = imgEl [(''data-lazyload'', js ''lazy.jpg'')] (js ''https://cdn/blank.gif'') [] 120 120"

definition srcsetImage :: props where
  "srcsetImage = imgEl [] [] (js ''s.jpg 1x, l.jpg 2x'') 120 120"

definition pngDataImage :: props where
  "pngDataImage = imgEl [] (js ''data:image/png;base64,AAAA'') [] 120 120"

text \<open>A price whose sixth ancestor is an element of class \<^verbatim>\<open>reviews\<close>.\<close>

definition deepReview :: element where
  "deepReview = Element (visibleEl ''html'' [] [] 1200 3000)
     [Element (visibleEl ''div'' [(''class'', js ''reviews'')] [] 300 200)
       [Element (visibleEl ''div'' [] [] 300 200)
         [Element (visibleEl ''div'' [] [] 300 200)
           [Element (visibleEl ''div'' [] [] 300 200)
             [Element (visibleEl ''div'' [] [] 300 200)
               [Element (visibleEl ''div'' [] [] 300 200)
                 [Element (visibleEl ''span'' [] (js ''$19.99'') 60 20) []]]]]]]]"

section \<open>Properties\<close>

subsection \<open>The matcher\<close>

text \<open>The rounds of \<open>star_steps\<close> given to \<^verbatim>\<open>r*\<close> are enough: more rounds add no end
  position.\<close>

lemma star_steps_Nil: "star_steps n f [] = []"
  by (cases n) simp_all

lemma star_steps_fuel:
  "\<forall>st \<in> set sts. length (snd st) \<le> n \<Longrightarrow> star_steps (n + k) f sts = star_steps n f sts"
proof (induction n arbitrary: sts)
  case 0
  then have c: "concat (map (\<lambda>st. filter (\<lambda>st'. length (snd st') < length (snd st)) (f st)) sts) = []"
    by (induction sts) auto
  show ?case
  proof (cases k)
    case 0
    then show ?thesis by simp
  next
    case (Suc k')
    have "star_steps (Suc k') f sts = sts"
      unfolding star_steps.simps c by (simp add: star_steps_Nil)
    then show ?thesis by (simp add: Suc)
  qed
next
  case (Suc n)
  let ?next = "remdups (concat (map (\<lambda>st. filter (\<lambda>st'. length (snd st') < length (snd st)) (f st)) sts))"
  have "\<forall>st \<in> set ?next. length (snd st) \<le> n"
    using Suc.prems by fastforce
  from Suc.IH [OF this] show ?case by simp
qed

subsection \<open>The climb\<close>

lemma ancestors_unfold:
  "ancestors doc n = (case parentElement doc n of None \<Rightarrow> [] | Some a \<Rightarrow> a # ancestors doc a)"
  by (cases "path n") (auto simp: ancestors_def parentElement_def path_def split: option.splits)


lemma climb_find:
  "\<exists>img'. climb doc pc pe i cur img None =
     (case List.find (qualifies pc pe) (take (10 - i) (ancestors doc cur)) of
        None \<Rightarrow> (None, img', None)
      | Some c \<Rightarrow> (Some c, findImage c, findTitle pe c))"
proof (induction "10 - i" arbitrary: i cur img)
  case 0
  then show ?case by (simp add: climb.simps)
next
  case (Suc k)
  then have lt: "i < 10" and k: "k = 10 - Suc i" by auto
  show ?case
  proof (cases "parentElement doc cur")
    case None
    then show ?thesis using lt
      by (subst climb.simps) (simp add: ancestors_unfold [of doc cur])
  next
    case (Some a)
    have tk: "take (10 - i) (ancestors doc cur) = a # take (10 - Suc i) (ancestors doc a)"
      using lt Some by (subst ancestors_unfold) (simp add: take_Cons' Suc_diff_Suc)
    show ?thesis
    proof (cases "qualifies pc pe a")
      case True
      then show ?thesis using lt Some
        by (subst climb.simps) (simp add: tk qualifies_def findTitle_def Let_def)
    next
      case nq: False
      have "\<exists>img''. climb doc pc pe i cur img None = climb doc pc pe (Suc i) a img'' None"
      proof (cases "path a \<in> set pc \<or> sizeOutOfBounds (el a)")
        case True
        then have "climb doc pc pe i cur img None = climb doc pc pe (Suc i) a img None"
          using lt Some by (subst climb.simps) auto
        then show ?thesis ..
      next
        case False
        then have "findImage a = None \<or> findTitle pe a = None"
          using nq unfolding qualifies_def by blast
        then have "climb doc pc pe i cur img None = climb doc pc pe (Suc i) a (findImage a) None"
          using lt Some False
          by (subst climb.simps) (auto simp: findTitle_def Let_def)
        then show ?thesis ..
      qed
      then obtain img'' where
        step: "climb doc pc pe i cur img None = climb doc pc pe (Suc i) a img'' None" ..
      from Suc.hyps(1) [OF k, of a img''] show ?thesis
        unfolding step using nq by (simp add: tk)
    qed
  qed
qed

lemma climb_container:
  "fst (climb doc pc pe i cur img ttl) = Some a \<Longrightarrow>
   path a \<notin> set pc \<and> \<not> sizeOutOfBounds (el a) \<and> a \<in> set (take (10 - i) (ancestors doc cur))"
proof (induction "10 - i" arbitrary: i cur img ttl)
  case 0
  then show ?case by (simp add: climb.simps)
next
  case (Suc k)
  then have lt: "i < 10" and k: "k = 10 - Suc i" by auto
  show ?case
  proof (cases "parentElement doc cur")
    case None
    then show ?thesis using lt Suc.prems by (simp add: climb.simps)
  next
    case (Some b)
    have tk: "take (10 - i) (ancestors doc cur) = b # take (10 - Suc i) (ancestors doc b)"
      using lt Some by (subst ancestors_unfold) (simp add: take_Cons' Suc_diff_Suc)
    have "(a = b \<and> path b \<notin> set pc \<and> \<not> sizeOutOfBounds (el b))
          \<or> (\<exists>img' ttl'. fst (climb doc pc pe (Suc i) b img' ttl') = Some a)"
      using Suc.prems lt Some
      by (subst (asm) climb.simps) (simp add: Let_def split: if_splits, blast+)
    then show ?thesis
    proof (elim disjE exE)
      assume "a = b \<and> path b \<notin> set pc \<and> \<not> sizeOutOfBounds (el b)"
      then show ?thesis by (simp add: tk)
    next
      fix img' ttl'
      assume "fst (climb doc pc pe (Suc i) b img' ttl') = Some a"
      from Suc.hyps(1) [OF k this] show ?thesis by (simp add: tk)
    qed
  qed
qed

subsection \<open>The pass\<close>

lemma find_SomeD: "List.find P xs = Some x \<Longrightarrow> P x \<and> x \<in> set xs"
  by (auto simp: find_Some_iff)

lemma processPriceElement_cases:
  "processPriceElement doc st pe = Inr st
   \<or> (\<exists>c i t. qualifies (processedContainers st) pe c
        \<and> c \<in> set (take 10 (ancestors doc pe))
        \<and> findImage c = Some i \<and> findTitle pe c = Some t
        \<and> processPriceElement doc st pe =
            Inr \<lparr>emitted = emitted st @ [(c, pe, makeRecord (Some t) pe i)],
                 processedContainers = processedContainers st @ [path c]\<rparr>)"
proof -
  obtain img' where c: "climb doc (processedContainers st) pe 0 pe None None =
     (case List.find (qualifies (processedContainers st) pe) (take (10 - 0) (ancestors doc pe)) of
        None \<Rightarrow> (None, img', None)
      | Some c \<Rightarrow> (Some c, findImage c, findTitle pe c))"
    using climb_find [of doc "processedContainers st" pe 0 pe None] by blast
  show ?thesis
  proof (cases "List.find (qualifies (processedContainers st) pe) (take 10 (ancestors doc pe))")
    case None
    then show ?thesis using c by (simp add: processPriceElement_def)
  next
    case (Some a)
    from find_SomeD [OF Some] have q: "qualifies (processedContainers st) pe a"
      and m: "a \<in> set (take 10 (ancestors doc pe))" by auto
    from q obtain i t where i: "findImage a = Some i" and t: "findTitle pe a = Some t"
      and np: "path a \<notin> set (processedContainers st)"
      unfolding qualifies_def by blast
    have "processPriceElement doc st pe =
            Inr \<lparr>emitted = emitted st @ [(a, pe, makeRecord (Some t) pe i)],
                 processedContainers = processedContainers st @ [path a]\<rparr>"
      using c Some i t np by (simp add: processPriceElement_def set_add_def)
    then show ?thesis using q m i t by blast
  qed
qed

lemma processPriceElement_no_error: "processPriceElement doc st pe \<noteq> Inl e"
  using processPriceElement_cases [of doc st pe] by auto

text \<open>Whenever the loops with the exceptions return, they return what the loops on
  HTML elements compute.\<close>

lemma titleLoop_Inr: "titleLoop pe es ttl = Inr t \<Longrightarrow> scanTitles pe es ttl = t"
  by (induction es) (auto split: if_splits)

lemma titleLoop_html:
  "list_all (\<lambda>e. htmlElement (el e)) es \<Longrightarrow> titleLoop pe es ttl = Inr (scanTitles pe es ttl)"
  by (induction es) auto

lemma climbLoop_Inr:
  "climbLoop doc pc pe i cur img ttl = Inr r \<Longrightarrow> climb doc pc pe i cur img ttl = r"
proof (induction "10 - i" arbitrary: i cur img ttl)
  case 0
  then show ?case by (simp add: climbLoop.simps climb.simps)
next
  case (Suc k)
  then have lt: "i < 10" and k: "k = 10 - Suc i" by auto
  show ?case
  proof (cases "parentElement doc cur")
    case None
    then show ?thesis using lt Suc.prems by (simp add: climbLoop.simps climb.simps)
  next
    case (Some a)
    show ?thesis
    proof (cases "path a \<in> set pc \<or> sizeOutOfBounds (el a)")
      case True
      have l: "climbLoop doc pc pe i cur img ttl = climbLoop doc pc pe (Suc i) a img ttl"
        using lt Some True by (subst climbLoop.simps) auto
      have c: "climb doc pc pe i cur img ttl = climb doc pc pe (Suc i) a img ttl"
        using lt Some True by (subst climb.simps) auto
      from Suc.prems l have "climbLoop doc pc pe (Suc i) a img ttl = Inr r" by simp
      from Suc.hyps(1) [OF k this] c show ?thesis by simp
    next
      case False
      show ?thesis
      proof (cases "findImage a = None")
        case True
        have l: "climbLoop doc pc pe i cur img ttl = climbLoop doc pc pe (Suc i) a None ttl"
          using lt Some False True by (subst climbLoop.simps) auto
        have c: "climb doc pc pe i cur img ttl = climb doc pc pe (Suc i) a None ttl"
          using lt Some False True by (subst climb.simps) (auto simp: Let_def)
        from Suc.prems l have "climbLoop doc pc pe (Suc i) a None ttl = Inr r" by simp
        from Suc.hyps(1) [OF k this] c show ?thesis by simp
      next
        case im: False
        show ?thesis
        proof (cases "titleLoop pe (querySelectorAll a titleSelectors) ttl")
          case (Inl e)
          have "climbLoop doc pc pe i cur img ttl = Inl e"
            using lt Some False im Inl by (subst climbLoop.simps) auto
          with Suc.prems show ?thesis by simp
        next
          case (Inr t)
          from titleLoop_Inr [OF Inr]
          have s: "scanTitles pe (querySelectorAll a titleSelectors) ttl = t" .
          show ?thesis
          proof (cases "t = None")
            case True
            have l: "climbLoop doc pc pe i cur img ttl
                       = climbLoop doc pc pe (Suc i) a (findImage a) None"
              using lt Some False im Inr True by (subst climbLoop.simps) auto
            have c: "climb doc pc pe i cur img ttl = climb doc pc pe (Suc i) a (findImage a) None"
              using lt Some False im s True by (subst climb.simps) (auto simp: Let_def)
            from Suc.prems l have "climbLoop doc pc pe (Suc i) a (findImage a) None = Inr r"
              by simp
            from Suc.hyps(1) [OF k this] c show ?thesis by simp
          next
            case nt: False
            have l: "climbLoop doc pc pe i cur img ttl = Inr (Some a, findImage a, t)"
              using lt Some False im Inr nt by (subst climbLoop.simps) auto
            have c: "climb doc pc pe i cur img ttl = (Some a, findImage a, t)"
              using lt Some False im s nt by (subst climb.simps) (auto simp: Let_def)
            from Suc.prems l c show ?thesis by simp
          qed
        qed
      qed
    qed
  qed
qed

lemma filterE_Inr:
  "filterE (filterCallback doc) xs = Inr ys \<Longrightarrow>
     ys = filter (isPotentialPrice doc) xs \<and> list_all (\<lambda>n. htmlElement (el n)) xs"
  by (induction xs arbitrary: ys) (auto simp: filterCallback_def split: if_splits sum.splits)

lemma filterE_html:
  "list_all (\<lambda>n. htmlElement (el n)) xs \<Longrightarrow>
     filterE (filterCallback doc) xs = Inr (filter (isPotentialPrice doc) xs)"
  by (induction xs) (auto simp: filterCallback_def)

lemma scanPriceElements_Inr:
  "scanPriceElements doc = Inr ps \<Longrightarrow> ps = potentialPriceElements doc"
  using filterE_Inr [of doc "document_querySelectorAll doc priceSelectors" ps]
  by (simp add: scanPriceElements_def potentialPriceElements_def)

lemma callback_Inr:
  assumes "callback doc st pe = Inr (st', h)"
  shows "processPriceElement doc st pe = Inr st'"
proof (cases "climbLoop doc (processedContainers st) pe 0 pe None None")
  case (Inl e)
  with assms show ?thesis by (simp add: callback_def)
next
  case (Inr r)
  from climbLoop_Inr [OF Inr]
  have c: "climb doc (processedContainers st) pe 0 pe None None = r" .
  obtain pc img ttl where r: "r = (pc, img, ttl)" by (cases r) auto
  show ?thesis
    using assms Inr c unfolding r callback_def processPriceElement_def
    by (auto split: option.splits)
qed

lemma callback_cases:
  assumes "callback doc st pe = Inr (st', h)"
  shows "st' = st
   \<or> (\<exists>c i t. qualifies (processedContainers st) pe c
        \<and> c \<in> set (take 10 (ancestors doc pe))
        \<and> findImage c = Some i \<and> findTitle pe c = Some t
        \<and> st' = \<lparr>emitted = emitted st @ [(c, pe, makeRecord (Some t) pe i)],
                  processedContainers = processedContainers st @ [path c]\<rparr>)"
  using processPriceElement_cases [of doc st pe] callback_Inr [OF assms] by auto

lemma forEach_invariant:
  assumes "forEach L doc hs st ps = Inr st'"
    and "P st"
    and "\<And>hs s pe s' h. P s \<Longrightarrow> pe \<in> set ps \<Longrightarrow>
           callback (rendered L hs doc) s pe = Inr (s', h) \<Longrightarrow> P s'"
  shows "P st'"
  using assms
proof (induction ps arbitrary: st hs)
  case Nil
  then show ?case by simp
next
  case (Cons p ps)
  from Cons.prems(1) obtain s h where s: "callback (rendered L hs doc) st p = Inr (s, h)"
    and r: "forEach L doc (hs @ h) s ps = Inr st'"
    by (auto split: sum.splits)
  have hd: "p \<in> set (p # ps)" by simp
  have ps: "P s" by (rule Cons.prems(3) [OF Cons.prems(2) hd s])
  show ?case
  proof (rule Cons.IH [OF r ps])
    fix hs0 s0 pe s1 h0
    assume a: "P s0" and b: "pe \<in> set ps"
      and c: "callback (rendered L hs0 doc) s0 pe = Inr (s1, h0)"
    from b have b': "pe \<in> set (p # ps)" by simp
    show "P s1" by (rule Cons.prems(3) [OF a b' c])
  qed
qed

lemma detectProducts_forEach:
  "detectProducts L doc = Inr (st, ntf) \<Longrightarrow>
   forEach L doc [] \<lparr>emitted = [], processedContainers = []\<rparr> (potentialPriceElements doc) = Inr st
   \<and> ntf = notification (results st)"
  by (auto simp: detectProducts_def split: sum.splits dest: scanPriceElements_Inr)

lemma pass_claims:
  assumes "detectProducts L doc = Inr (st, ntf)"
  shows "map path (containers st) = processedContainers st \<and> distinct (processedContainers st)"
proof -
  let ?P = "\<lambda>s. map path (containers s) = processedContainers s \<and> distinct (processedContainers s)"
  have f: "forEach L doc [] \<lparr>emitted = [], processedContainers = []\<rparr> (potentialPriceElements doc) = Inr st"
    using detectProducts_forEach [OF assms] by simp
  show ?thesis
  proof (rule forEach_invariant [where P = ?P, OF f])
    show "?P \<lparr>emitted = [], processedContainers = []\<rparr>" by (simp add: containers_def)
  next
    fix hs s pe s' h
    assume p: "?P s" and s: "callback (rendered L hs doc) s pe = Inr (s', h)"
    from callback_cases [OF s] show "?P s'"
    proof (elim disjE exE conjE)
      assume "s' = s"
      with p show ?thesis by simp
    next
      fix c i t
      assume q: "qualifies (processedContainers s) pe c"
        and s': "s' = \<lparr>emitted = emitted s @ [(c, pe, makeRecord (Some t) pe i)],
                 processedContainers = processedContainers s @ [path c]\<rparr>"
      from q have n: "path c \<notin> set (processedContainers s)" by (simp add: qualifies_def)
      show ?thesis using p n unfolding s' by (simp add: containers_def)
    qed
  qed
qed

lemma pass_emitted:
  assumes "detectProducts L doc = Inr (st, ntf)"
  shows "list_all (emittedOk L doc) (emitted st)"
proof -
  let ?P = "\<lambda>s. list_all (emittedOk L doc) (emitted s)"
  have f: "forEach L doc [] \<lparr>emitted = [], processedContainers = []\<rparr> (potentialPriceElements doc) = Inr st"
    using detectProducts_forEach [OF assms] by simp
  show ?thesis
  proof (rule forEach_invariant [where P = ?P, OF f])
    show "?P \<lparr>emitted = [], processedContainers = []\<rparr>" by simp
  next
    fix hs s pe s' h
    assume p: "?P s" and m: "pe \<in> set (potentialPriceElements doc)"
      and s: "callback (rendered L hs doc) s pe = Inr (s', h)"
    from callback_cases [OF s] show "?P s'"
    proof (elim disjE exE conjE)
      assume "s' = s"
      with p show ?thesis by simp
    next
      fix c i t
      assume q: "qualifies (processedContainers s) pe c"
        and a: "c \<in> set (take 10 (ancestors (rendered L hs doc) pe))"
        and s': "s' = \<lparr>emitted = emitted s @ [(c, pe, makeRecord (Some t) pe i)],
                 processedContainers = processedContainers s @ [path c]\<rparr>"
      from q have z: "\<not> sizeOutOfBounds (el c)" by (simp add: qualifies_def)
      from a have "\<exists>hs. c \<in> set (take 10 (ancestors (rendered L hs doc) pe))" ..
      then have "emittedOk L doc (c, pe, makeRecord (Some t) pe i)"
        using m z by (simp add: emittedOk_def makeRecord_def)
      then show ?thesis using p unfolding s' by simp
    qed
  qed
qed

lemma emitted_member:
  assumes "detectProducts L doc = Inr (st, ntf)" and "x \<in> set (emitted st)"
  shows "emittedOk L doc x"
  using pass_emitted [OF assms(1)] assms(2) by (simp add: list_all_iff)










subsection \<open>Pages of HTML elements\<close>

text \<open>On a page all of whose elements are HTML elements, with a \<^verbatim>\<open>head\<close> and a
  \<^verbatim>\<open>body\<close>, nothing throws: the loops with the exceptions are the loops on HTML
  elements, and the script returns.\<close>

lemma subtree_allHtml:
  "allHtml e \<Longrightarrow> n \<in> set (subtree p e) \<Longrightarrow> htmlElement (el n)"
  "list_all allHtml cs \<Longrightarrow> n \<in> set (forest p i cs) \<Longrightarrow> htmlElement (el n)"
  by (induction p e and p i cs rule: subtree_forest.induct) auto

lemma lookup_allHtml: "allHtml e \<Longrightarrow> lookup e is = Some e' \<Longrightarrow> allHtml e'"
proof (induction "is" arbitrary: e)
  case Nil
  then show ?case by simp
next
  case (Cons i "is")
  obtain pr cs where e: "e = Element pr cs" by (cases e) auto
  from Cons.prems e have lt: "i < length cs" and l: "lookup (cs ! i) is = Some e'"
    by (auto split: if_splits)
  from Cons.prems(1) e lt have "allHtml (cs ! i)" by (simp add: list_all_length)
  from Cons.IH [OF this l] show ?case .
qed

lemma relayout_allHtml:
  "allHtml e \<Longrightarrow> allHtml (relayout g hs p e)"
  "list_all allHtml cs \<Longrightarrow> list_all allHtml (relayoutForest g hs p i cs)"
  by (induction g hs p e and g hs p i cs rule: relayout_relayoutForest.induct) auto

lemma rendered_allHtml: "allHtml doc \<Longrightarrow> allHtml (rendered L hs doc)"
  by (simp add: rendered_def relayout_allHtml)

lemma querySelectorAll_html:
  assumes "allHtml doc" and "parentElement doc cur = Some a"
  shows "list_all (\<lambda>e. htmlElement (el e)) (querySelectorAll a sels)"
proof -
  from assms(2) obtain p e where a: "a = (p, e)" and l: "lookup doc (rev p) = Some e"
    by (auto simp: parentElement_def split: list.splits option.splits)
  from lookup_allHtml [OF assms(1) l] have h: "allHtml e" .
  have "htmlElement (el n)" if "n \<in> set (tl (subtree p e))" for n
    using subtree_allHtml(1) [OF h, of n p] that by (cases "subtree p e") auto
  then show ?thesis unfolding querySelectorAll_def a path_def
    by (simp add: list_all_iff)
qed

lemma climbLoop_html:
  assumes "allHtml doc"
  shows "climbLoop doc pc pe i cur img ttl = Inr (climb doc pc pe i cur img ttl)"
proof (induction "10 - i" arbitrary: i cur img ttl)
  case 0
  then show ?case by (simp add: climbLoop.simps climb.simps)
next
  case (Suc k)
  then have lt: "i < 10" and k: "k = 10 - Suc i" by auto
  show ?case
  proof (cases "parentElement doc cur")
    case None
    then show ?thesis using lt by (simp add: climbLoop.simps climb.simps)
  next
    case (Some a)
    have t: "titleLoop pe (querySelectorAll a titleSelectors) ttl
               = Inr (scanTitles pe (querySelectorAll a titleSelectors) ttl)"
      by (rule titleLoop_html [OF querySelectorAll_html [OF assms Some]])
    show ?thesis
      using lt Some t Suc.hyps(1) [OF k]
      by (subst climbLoop.simps, subst climb.simps) (simp add: Let_def)
  qed
qed

lemma callback_html:
  assumes "allHtml doc"
  shows "\<exists>s h. callback doc st pe = Inr (s, h)"
proof -
  have l: "climbLoop doc (processedContainers st) pe 0 pe None None
             = Inr (climb doc (processedContainers st) pe 0 pe None None)"
    by (rule climbLoop_html [OF assms])
  obtain c img ttl where r: "climb doc (processedContainers st) pe 0 pe None None = (c, img, ttl)"
    by (cases "climb doc (processedContainers st) pe 0 pe None None") auto
  have "img \<noteq> None" if "c \<noteq> None"
    using processPriceElement_no_error [of doc st pe TypeError] r that
    by (auto simp: processPriceElement_def split: option.splits)
  then show ?thesis unfolding callback_def l r by (auto split: option.splits)
qed

lemma forEach_html:
  assumes "allHtml doc"
  shows "\<exists>s. forEach L doc hs st ps = Inr s"
proof (induction ps arbitrary: st hs)
  case Nil
  show ?case by simp
next
  case (Cons p ps)
  from callback_html [OF rendered_allHtml [OF assms], of L hs st p]
  obtain s h where c: "callback (rendered L hs doc) st p = Inr (s, h)" by blast
  from Cons [of "hs @ h" s] c show ?case by simp
qed

lemma scanPriceElements_html:
  assumes "allHtml doc"
  shows "scanPriceElements doc = Inr (potentialPriceElements doc)"
proof -
  have "list_all (\<lambda>n. htmlElement (el n)) (document_querySelectorAll doc priceSelectors)"
    using subtree_allHtml(1) [OF assms]
    by (auto simp: document_querySelectorAll_def list_all_iff)
  from filterE_html [OF this] show ?thesis
    by (simp add: scanPriceElements_def potentialPriceElements_def)
qed

lemma detectProducts_total:
  assumes "allHtml doc" and "document_head doc \<noteq> None" and "document_body doc \<noteq> None"
  shows "\<exists>st. detectProducts L doc = Inr (st, notification (results st))"
proof -
  from forEach_html [OF assms(1)] obtain s where
    "forEach L doc [] \<lparr>emitted = [], processedContainers = []\<rparr> (potentialPriceElements doc) = Inr s"
    by blast
  then show ?thesis using assms(2,3) scanPriceElements_html [OF assms(1)]
    by (auto simp: detectProducts_def injectStyles_def displayPageNotification_def
          split: option.splits)
qed

lemma detectProducts_no_price:
  assumes "allHtml doc" and "document_head doc \<noteq> None" and "document_body doc \<noteq> None"
    and "potentialPriceElements doc = []"
  shows "detectProducts L doc =
           Inr (\<lparr>emitted = [], processedContainers = []\<rparr>,
                (js ''No products detected on this page.'', ''error''))"
  using assms scanPriceElements_html [OF assms(1)]
  by (auto simp: detectProducts_def injectStyles_def displayPageNotification_def
        results_def notification_def split: option.splits)

subsection \<open>The image URL\<close>

lemma split_not_Nil: "split sep s \<noteq> []"
  by (induction s) (auto split: list.splits)

lemma startsWith_append: "startsWith s (p @ q) \<Longrightarrow> startsWith s p"
proof -
  assume "startsWith s (p @ q)"
  then have "take (length (p @ q)) s = p @ q" by (simp add: startsWith_def)
  then have "take (length p) (take (length (p @ q)) s) = take (length p) (p @ q)" by simp
  then show "startsWith s p" by (simp add: startsWith_def min_def)
qed

lemma gif_is_data: "startsWith s (js ''data:image/gif'') \<Longrightarrow> startsWith s (js ''data:'')"
proof -
  have "js ''data:image/gif'' = js ''data:'' @ js ''image/gif''" by (simp add: js_def)
  then show "startsWith s (js ''data:image/gif'') \<Longrightarrow> startsWith s (js ''data:'')"
    using startsWith_append by metis
qed

lemma actualImageUrl_steps:
  "actualImageUrl pr = orNA (if srcsetOverrides pr then srcsetLastUrl pr else firstChoice pr)"
proof -
  have "last (map (\<lambda>s. split 32 (trim s)) (split 44 (srcset pr)))
      = split 32 (trim (last (split 44 (srcset pr))))"
    using split_not_Nil by (simp add: last_map)
  then have sl: "srcsetLast (srcset pr) v = srcsetLastUrl pr" for v
    using split_not_Nil [of 44 "srcset pr"] by (simp add: srcsetLast_def srcsetLastUrl_def Let_def)
  have fc: "(if src pr = [] \<or> startsWith (src pr) (js ''data:image/gif;base64'')
                \<or> includesStr (src pr) (js ''blank.gif'')
             then lazyLoadUrl pr else Some (src pr)) = firstChoice pr"
    by (simp add: firstChoice_def keptSource_def)
  show ?thesis
    unfolding actualImageUrl_def Let_def fc sl srcsetOverrides_def [symmetric] orNA_def
    by (rule refl)
qed

lemma url_kept:
  assumes "keptSource pr" and "\<not> startsWith (src pr) (js ''data:'')"
  shows "actualImageUrl pr = src pr"
proof -
  from assms have v: "firstChoice pr = Some (src pr)" and n: "src pr \<noteq> []"
    by (simp_all add: firstChoice_def keptSource_def)
  from assms(2) gif_is_data have "\<not> startsWith (src pr) (js ''data:image/gif'')" by blast
  then have "\<not> srcsetOverrides pr" using n by (simp add: srcsetOverrides_def v truthy_def startsWithOpt_def)
  then show ?thesis using assms(2) n by (simp add: actualImageUrl_steps v orNA_def)
qed

lemma url_lazy:
  assumes "\<not> keptSource pr" and "truthy (lazyLoadUrl pr)"
    and "\<not> startsWithOpt (lazyLoadUrl pr) (js ''data:'')"
  shows "Some (actualImageUrl pr) = lazyLoadUrl pr"
proof -
  from assms(1) have v: "firstChoice pr = lazyLoadUrl pr" by (simp add: firstChoice_def)
  from assms(2) obtain u where u: "lazyLoadUrl pr = Some u" and n: "u \<noteq> []"
    by (cases "lazyLoadUrl pr") (simp_all add: truthy_def)
  from assms(3) u have d: "\<not> startsWith u (js ''data:'')" by (simp add: startsWithOpt_def)
  with gif_is_data have "\<not> startsWith u (js ''data:image/gif'')" by blast
  then have "\<not> srcsetOverrides pr" using n by (simp add: srcsetOverrides_def v u truthy_def startsWithOpt_def)
  then show ?thesis using d n by (simp add: actualImageUrl_steps v u orNA_def)
qed

lemma url_NA:
  assumes "\<not> srcsetOverrides pr"
    and "\<not> truthy (firstChoice pr) \<or> startsWithOpt (firstChoice pr) (js ''data:'')"
  shows "actualImageUrl pr = js ''N/A''"
proof (cases "firstChoice pr")
  case None
  then show ?thesis using assms(1) by (simp add: actualImageUrl_steps orNA_def)
next
  case (Some u)
  then have "u = [] \<or> startsWith u (js ''data:'')"
    using assms(2) by (simp add: truthy_def startsWithOpt_def)
  then show ?thesis using assms(1) Some by (simp add: actualImageUrl_steps orNA_def)
qed

subsection \<open>The review containers\<close>

lemma closest_Some:
  "a \<in> set (n # ancestors doc n) \<Longrightarrow> matches sels a \<Longrightarrow> closest doc n sels \<noteq> None"
  unfolding closest_def find_None_iff by blast

text \<open>The bounded climb of the earlier revision looks at the element and its first
  five ancestors; what it finds, \<^verbatim>\<open>closest\<close> finds.\<close>

lemma isInReviewContainer_take:
  "isInReviewContainer doc i (Some n) =
     list_ex (matches reviewContainerSelectors) (take (6 - i) (n # ancestors doc n))"
proof (induction "6 - i" arbitrary: i n)
  case 0
  then show ?case by (simp add: isInReviewContainer.simps)
next
  case (Suc k)
  then have lt: "i < 6" and k: "k = 6 - Suc i" by auto
  have step: "isInReviewContainer doc i (Some n) =
      (matches reviewContainerSelectors n
       \<or> isInReviewContainer doc (Suc i) (parentElement doc n))"
    using lt by (subst isInReviewContainer.simps) simp
  show ?case
  proof (cases "parentElement doc n")
    case None
    have f: "isInReviewContainer doc (Suc i) None = False"
      by (simp add: isInReviewContainer.simps)
    have e: "ancestors doc n = []"
      using None by (subst ancestors_unfold) simp
    show ?thesis unfolding step None f e using lt by (simp add: take_Cons')
  next
    case (Some a)
    have an: "ancestors doc n = a # ancestors doc a"
      using Some by (subst ancestors_unfold) simp
    show ?thesis
      unfolding step Some Suc.hyps(1) [OF k, of a] an using lt
      by (simp add: take_Cons' Suc_diff_Suc)
  qed
qed

lemma isInReviewContainer_closest:
  assumes "isInReviewContainer doc 0 (Some n)"
  shows "closest doc n reviewContainerSelectors \<noteq> None"
proof -
  from assms have "\<exists>x \<in> set (take 6 (n # ancestors doc n)). matches reviewContainerSelectors x"
    by (simp add: isInReviewContainer_take list_ex_iff)
  then obtain x where x: "x \<in> set (take 6 (n # ancestors doc n))"
    and m: "matches reviewContainerSelectors x"
    by blast
  from x have "x \<in> set (n # ancestors doc n)" by (rule in_set_takeD)
  then show ?thesis using m by (rule closest_Some)
qed

subsection \<open>Evaluations\<close>

lemma deepReview_missed:
  "(let span = subtree [] deepReview ! 7 in
      closest deepReview span reviewContainerSelectors \<noteq> None
      \<and> \<not> isInReviewContainer deepReview 0 (Some span))"
  by code_simp

lemma example_pages_html:
  "allHtml twoCards \<and> document_head twoCards \<noteq> None \<and> document_body twoCards \<noteq> None"
  "allHtml plainPage \<and> document_head plainPage \<noteq> None \<and> document_body plainPage \<noteq> None"
  "allHtml growingCard \<and> document_head growingCard \<noteq> None \<and> document_body growingCard \<noteq> None"
  by code_simp+

lemma reviewPage_facts:
  "(let box = subtree [] reviewPage ! 3; span = subtree [] reviewPage ! 7 in
      box \<in> set (span # ancestors reviewPage span)
      \<and> matches reviewContainerSelectors box
      \<and> trim (innerText (el span)) = js ''$19.99''
      \<and> priceRegex_test (trim (innerText (el span)))
      \<and> map path (ancestors reviewPage span) = [[2, 0, 1], [0, 1], [1], []])"
  by code_simp

lemma reviewPage_run:
  "(case detectProducts (noReflow reviewPage) reviewPage of
      Inl e \<Rightarrow> False | Inr (st, n) \<Rightarrow> emitted st = [])"
  by code_simp


lemma plainPage_facts: "potentialPriceElements plainPage = []"
  by code_simp

lemma plainPage_run:
  "detectProducts (noReflow plainPage) plainPage =
     Inr (\<lparr>emitted = [], processedContainers = []\<rparr>,
          (js ''No products detected on this page.'', ''error''))
   \<and> onClick (Inr [Some (results \<lparr>emitted = [], processedContainers = []\<rparr>)]) None =
       \<lparr>statusMessage = js ''No products were detected.'',
        highlightBtn_disabled = True, download = None\<rparr>"
  using detectProducts_no_price [of plainPage "noReflow plainPage"] example_pages_html(2)
    plainPage_facts
  by (simp add: results_def onClick_def)

lemma svgLinkPage_facts:
  "potentialPriceElements svgLinkPage = []"
  "document_head svgLinkPage \<noteq> None"
  "document_body svgLinkPage \<noteq> None"
  "injectStyles svgLinkPage = Inr ()"
  "scanPriceElements svgLinkPage = Inl TypeError"
  "map (\<lambda>n. (localName (el n), htmlElement (el n)))
       (document_querySelectorAll svgLinkPage priceSelectors) = [(''p'', True), (''a'', False)]"
  by code_simp+

lemma svgDocument_facts:
  "potentialPriceElements svgDocument = []"
  "document_head svgDocument = None"
  "injectStyles svgDocument = Inl TypeError"
  by code_simp+

lemma example_images:
  "keptSource plainImage \<and> \<not> startsWith (src plainImage) (js ''data:'')
     \<and> src plainImage = js ''a.jpg''"
  "\<not> keptSource lazyImage \<and> truthy (lazyLoadUrl lazyImage)
     \<and> \<not> startsWithOpt (lazyLoadUrl lazyImage) (js ''data:'')
     \<and> lazyLoadUrl lazyImage = Some (js ''lazy.jpg'')"
  "srcsetOverrides srcsetImage \<and> orNA (srcsetLastUrl srcsetImage) = js ''l.jpg''"
  "\<not> srcsetOverrides pngDataImage
     \<and> (\<not> truthy (firstChoice pngDataImage) \<or> startsWithOpt (firstChoice pngDataImage) (js ''data:''))"
  "\<not> truthy (getAttribute lazyImage ''data-src'') \<and> truthy (getAttribute lazyImage ''data-lazyload'')
     \<and> getAttribute lazyImage ''data-lazyload'' = Some (js ''lazy.jpg'')"
  "truthy (getAttribute gifDataImage ''data-src'')
     \<and> getAttribute gifDataImage ''data-src'' = Some (js ''real.jpg'')"
  by code_simp+

lemma price_examples:
  "priceRegex_test (js ''$12.99'')"
  "priceRegex_test (js ''19,99 '' @ [8364])"
  "priceRegex_test (js ''1.234,56 EUR'')"
  by code_simp+

lemma price_examples_not_review:
  "\<not> reviewPattern_test (js ''$12.99'')"
  "\<not> reviewPattern_test (js ''19,99 '' @ [8364])"
  "\<not> reviewPattern_test (js ''1.234,56 EUR'')"
  by code_simp+

lemma review_examples:
  "reviewPattern_test (js ''4.5 out of 5 stars'')"
  "reviewPattern_test (js ''4.5/5'')"
  by code_simp+

lemma example_lengths:
  "length (js ''$12.99'') = 6" "length (js ''19,99 '' @ [8364]) = 7"
  "length (js ''1.234,56 EUR'') = 12"
  by (simp_all add: js_def)

lemma loneSpan_price:
  "(let n = subtree [] (loneSpan (js ''$12.99'')) ! 3 in
     \<not> offsetParentNull (el n) \<and> offsetWidth (el n) \<noteq> 0 \<and> offsetHeight (el n) \<noteq> 0
     \<and> trim (innerText (el n)) = js ''$12.99''
     \<and> closest (loneSpan (js ''$12.99'')) n reviewContainerSelectors = None
     \<and> \<not> isReviewElement (el n))"
  by code_simp

lemma loneSpan_review:
  "trim (innerText (el (subtree [] (loneSpan (js ''4.5/5'')) ! 3))) = js ''4.5/5''"
  by code_simp



lemma twoCards_first_record:
  "(case detectProducts (noReflow twoCards) twoCards of Inl e \<Rightarrow> False
    | Inr (st, n) \<Rightarrow>
        (case emitted st of [] \<Rightarrow> False
         | (c, p, r) # xs \<Rightarrow> price r = js ''$19.99'' \<and> path p = [2, 0, 1]
             \<and> title r = js ''Wireless Mouse'' \<and> imageUrl r = js ''a.jpg''))"
  by code_simp


lemma wrappedPrice_run:
  "(case detectProducts (noReflow wrappedPrice) wrappedPrice of Inl e \<Rightarrow> False
    | Inr (st, n) \<Rightarrow> map path (containers st) = [[0, 1]]
        \<and> map title (results st) = [js ''Great Mouse Deluxe''])"
  by code_simp

lemma twoCards_containers:
  "(case detectProducts (noReflow twoCards) twoCards of Inl e \<Rightarrow> False
    | Inr (st, n) \<Rightarrow> map path (containers st) = [[0, 1], [1, 1]])"
  by code_simp

lemma twoCards_second_climb:
  "map_option path (fst (climb twoCards [[0, 1]] (subtree [] twoCards ! 10) 0
      (subtree [] twoCards ! 10) None None)) = Some [1, 1]"
  by code_simp

text \<open>
  The sizes are read when the climb reaches an element. In \<open>growingCard\<close> the block at
  position \<open>[0, 0, 1]\<close> is 96 pixels wide when the pass starts: the climb of the first
  price passes it and takes the card around it. The highlight of that record widens the
  block to 104 pixels, and the climb of the second price takes the block. With a layout
  that no highlight changes, the same page gives one record.
\<close>

lemma growingCard_run:
  "offsetWidth (el (subtree [] growingCard ! 4)) = 96
   \<and> path (subtree [] growingCard ! 4) = [0, 0, 1]
   \<and> map path (potentialPriceElements growingCard) = [[2, 0, 0, 1], [3, 0, 0, 1]]
   \<and> (case detectProducts growLayout growingCard of Inl e \<Rightarrow> False
      | Inr (st, n) \<Rightarrow>
          map (\<lambda>c. (path c, offsetWidth (el c), offsetHeight (el c))) (containers st)
            = [([0, 1], 300, 200), ([0, 0, 1], 104, 154)]
          \<and> map price (results st) = [js ''$19.99'', js ''$24.99''])
   \<and> (case detectProducts (noReflow growingCard) growingCard of Inl e \<Rightarrow> False
      | Inr (st, n) \<Rightarrow> map path (containers st) = [[0, 1]])"
  by code_simp

lemma growingCard_highlight:
  "map (\<lambda>n. (path n, getAttribute (el n) ''class''))
     (tl (subtree [0, 0, 1]
            (snd (subtree [] (rendered growLayout [([0, 0, 0, 1], Some [1, 0, 0, 1], [2, 0, 0, 1])]
                                growingCard) ! 4))))
   = [([0, 0, 0, 1], Some (js ''product-detector-highlight-image'')),
      ([1, 0, 0, 1], Some (js ''product-detector-highlight-title'')),
      ([2, 0, 0, 1], Some (js ''product-detector-highlight-price'')),
      ([3, 0, 0, 1], None)]"
  by code_simp

section \<open>The claims\<close>

text \<open>
  C1. In one pass the containers of the pushed records are pairwise distinct
  elements: the sequence of processed containers is exactly the sequence of the
  records' containers and has no repetition (every \<^verbatim>\<open>add\<close> adds a new element), and a
  climb, whatever its inputs and whatever the document looks like when it runs, never
  answers an element that is already in the set of processed containers.
\<close>

theorem claimed_containers_distinct:
  "detectProducts L doc = Inr (st, ntf) \<Longrightarrow>
     distinct (map path (containers st))
     \<and> processedContainers st = map path (containers st)
     \<and> (\<forall>d pc pe i cur img ttl a.
           fst (climb d pc pe i cur img ttl) = Some a \<longrightarrow> path a \<notin> set pc)
     \<and> (\<forall>d pc pe i cur img ttl r a.
           climbLoop d pc pe i cur img ttl = Inr r \<and> fst r = Some a \<longrightarrow> path a \<notin> set pc)"
proof -
  assume h: "detectProducts L doc = Inr (st, ntf)"
  have a: "path a \<notin> set pc" if "fst (climb d pc pe i cur img ttl) = Some a"
    for d pc pe i cur img ttl a
    using climb_container [OF that] by simp
  have b: "path a \<notin> set pc" if "climbLoop d pc pe i cur img ttl = Inr r \<and> fst r = Some a"
    for d pc pe i cur img ttl r a
  proof -
    from that climbLoop_Inr [of d pc pe i cur img ttl r]
    have "fst (climb d pc pe i cur img ttl) = Some a" by simp
    then show ?thesis by (rule a)
  qed
  from pass_claims [OF h] have 1: "distinct (map path (containers st))"
    and 2: "processedContainers st = map path (containers st)" by simp_all
  have 3: "\<forall>d pc pe i cur img ttl a.
      fst (climb d pc pe i cur img ttl) = Some a \<longrightarrow> path a \<notin> set pc"
    by (intro allI impI) (rule a)
  have 4: "\<forall>d pc pe i cur img ttl r a.
      climbLoop d pc pe i cur img ttl = Inr r \<and> fst r = Some a \<longrightarrow> path a \<notin> set pc"
    by (intro allI impI) (rule b)
  show ?thesis by (rule conjI [OF 1 conjI [OF 2 conjI [OF 3 4]]])
qed

theorem claimed_containers_distinct_witness:
  "\<exists>st ntf a. detectProducts (noReflow twoCards) twoCards = Inr (st, ntf)
     \<and> map path (containers st) = [[0, 1], [1, 1]]
     \<and> distinct (map path (containers st))
     \<and> processedContainers st = [[0, 1], [1, 1]]
     \<and> fst (climb twoCards [[0, 1]] (subtree [] twoCards ! 10) 0
             (subtree [] twoCards ! 10) None None) = Some a
     \<and> path a = [1, 1] \<and> path a \<notin> set [[0, 1]]"
proof -
  obtain st ntf where h: "detectProducts (noReflow twoCards) twoCards = Inr (st, ntf)"
    using twoCards_containers by (auto split: sum.splits)
  have c: "map path (containers st) = [[0, 1], [1, 1]]"
    using twoCards_containers h by simp
  obtain a where a: "fst (climb twoCards [[0, 1]] (subtree [] twoCards ! 10) 0
             (subtree [] twoCards ! 10) None None) = Some a" and p: "path a = [1, 1]"
    using twoCards_second_climb by auto
  from claimed_containers_distinct [OF h] have
    "distinct (map path (containers st))"
    "processedContainers st = map path (containers st)"
    "path a \<notin> set [[0, 1]]"
    using a by blast+
  then show ?thesis using h c a p by auto
qed

text \<open>
  C2. The price pattern matches \<^verbatim>\<open>$12.99\<close>, \<^verbatim>\<open>19,99 EUR-sign\<close> and \<^verbatim>\<open>1.234,56 EUR\<close> and
  the review pattern does not; the review pattern matches \<^verbatim>\<open>4.5 out of 5 stars\<close> and
  \<^verbatim>\<open>4.5/5\<close>. So the text checks of the filter accept each of the first three strings
  and reject each of the last two, whatever the semantic price attribute; a visible
  element with one of the first three as its trimmed text passes the filter (when the
  two review checks before the text checks let it through), and an element with one of
  the last two as its trimmed text never passes it: the review pattern answers before
  the price pattern is consulted.
\<close>

theorem price_classifier_examples:
  "priceRegex_test (js ''$12.99'') \<and> \<not> reviewPattern_test (js ''$12.99'')
   \<and> priceRegex_test (js ''19,99 '' @ [8364]) \<and> \<not> reviewPattern_test (js ''19,99 '' @ [8364])
   \<and> priceRegex_test (js ''1.234,56 EUR'') \<and> \<not> reviewPattern_test (js ''1.234,56 EUR'')
   \<and> reviewPattern_test (js ''4.5 out of 5 stars'') \<and> reviewPattern_test (js ''4.5/5'')
   \<and> (\<forall>s semanticAttr.
          s \<in> set [js ''$12.99'', js ''19,99 '' @ [8364], js ''1.234,56 EUR'']
            \<longrightarrow> priceTextCheck s semanticAttr)
   \<and> (\<forall>s semanticAttr.
          s \<in> set [js ''4.5 out of 5 stars'', js ''4.5/5'']
            \<longrightarrow> \<not> priceTextCheck s semanticAttr)
   \<and> (\<forall>doc n.
          \<not> offsetParentNull (el n) \<and> offsetWidth (el n) \<noteq> 0 \<and> offsetHeight (el n) \<noteq> 0
          \<and> trim (innerText (el n)) \<in> set [js ''$12.99'', js ''19,99 '' @ [8364], js ''1.234,56 EUR'']
          \<and> closest doc n reviewContainerSelectors = None \<and> \<not> isReviewElement (el n)
            \<longrightarrow> isPotentialPrice doc n)
   \<and> (\<forall>doc n.
          trim (innerText (el n)) \<in> set [js ''4.5 out of 5 stars'', js ''4.5/5'']
            \<longrightarrow> \<not> isPotentialPrice doc n)"
proof -
  have acc: "priceTextCheck s b"
    if "s \<in> set [js ''$12.99'', js ''19,99 '' @ [8364], js ''1.234,56 EUR'']" for s b
    using that price_examples price_examples_not_review by (auto simp: priceTextCheck_def)
  have rej: "\<not> priceTextCheck s b"
    if "s \<in> set [js ''4.5 out of 5 stars'', js ''4.5/5'']" for s b
    using that review_examples by (auto simp: priceTextCheck_def)
  have len: "length s \<noteq> 0 \<and> length s \<le> MAX_TEXT_ELEMENT_LENGTH"
    if "s \<in> set [js ''$12.99'', js ''19,99 '' @ [8364], js ''1.234,56 EUR'']" for s
    using that example_lengths by (auto simp: MAX_TEXT_ELEMENT_LENGTH_def)
  have pos: "isPotentialPrice doc n"
    if "\<not> offsetParentNull (el n)" "offsetWidth (el n) \<noteq> 0" "offsetHeight (el n) \<noteq> 0"
      "trim (innerText (el n)) \<in> set [js ''$12.99'', js ''19,99 '' @ [8364], js ''1.234,56 EUR'']"
      "closest doc n reviewContainerSelectors = None" "\<not> isReviewElement (el n)" for doc n
    using that(1,2,3,5,6) acc [OF that(4)] len [OF that(4)]
    by (simp add: isPotentialPrice_def Let_def)
  have neg: "\<not> isPotentialPrice doc n"
    if "trim (innerText (el n)) \<in> set [js ''4.5 out of 5 stars'', js ''4.5/5'']" for doc n
    using rej [OF that] by (simp add: isPotentialPrice_def Let_def)
  show ?thesis
    using price_examples price_examples_not_review review_examples acc rej pos neg
    by blast
qed

theorem price_classifier_examples_witness:
  "js ''$12.99'' \<in> set [js ''$12.99'', js ''19,99 '' @ [8364], js ''1.234,56 EUR'']
   \<and> priceTextCheck (js ''$12.99'') False
   \<and> js ''4.5/5'' \<in> set [js ''4.5 out of 5 stars'', js ''4.5/5'']
   \<and> \<not> priceTextCheck (js ''4.5/5'') True
   \<and> trim (innerText (el (subtree [] (loneSpan (js ''$12.99'')) ! 3))) = js ''$12.99''
   \<and> closest (loneSpan (js ''$12.99'')) (subtree [] (loneSpan (js ''$12.99'')) ! 3)
         reviewContainerSelectors = None
   \<and> isPotentialPrice (loneSpan (js ''$12.99'')) (subtree [] (loneSpan (js ''$12.99'')) ! 3)
   \<and> trim (innerText (el (subtree [] (loneSpan (js ''4.5/5'')) ! 3))) = js ''4.5/5''
   \<and> \<not> isPotentialPrice (loneSpan (js ''4.5/5'')) (subtree [] (loneSpan (js ''4.5/5'')) ! 3)"
proof -
  have m1: "js ''$12.99'' \<in> set [js ''$12.99'', js ''19,99 '' @ [8364], js ''1.234,56 EUR'']"
    by simp
  have m2: "js ''4.5/5'' \<in> set [js ''4.5 out of 5 stars'', js ''4.5/5'']"
    by simp
  have a: "priceTextCheck (js ''$12.99'') False" and b: "\<not> priceTextCheck (js ''4.5/5'') True"
    and pos: "\<And>doc n. \<not> offsetParentNull (el n) \<and> offsetWidth (el n) \<noteq> 0 \<and> offsetHeight (el n) \<noteq> 0
          \<and> trim (innerText (el n)) \<in> set [js ''$12.99'', js ''19,99 '' @ [8364], js ''1.234,56 EUR'']
          \<and> closest doc n reviewContainerSelectors = None \<and> \<not> isReviewElement (el n)
            \<longrightarrow> isPotentialPrice doc n"
    and neg: "\<And>doc n. trim (innerText (el n)) \<in> set [js ''4.5 out of 5 stars'', js ''4.5/5'']
            \<longrightarrow> \<not> isPotentialPrice doc n"
    using price_classifier_examples m1 m2 by blast+
  have p: "isPotentialPrice (loneSpan (js ''$12.99'')) (subtree [] (loneSpan (js ''$12.99'')) ! 3)"
    using pos [of "subtree [] (loneSpan (js ''$12.99'')) ! 3" "loneSpan (js ''$12.99'')"]
      loneSpan_price by (simp add: Let_def)
  have q: "\<not> isPotentialPrice (loneSpan (js ''4.5/5'')) (subtree [] (loneSpan (js ''4.5/5'')) ! 3)"
    using neg [of "subtree [] (loneSpan (js ''4.5/5'')) ! 3" "loneSpan (js ''4.5/5'')"]
      loneSpan_review by simp
  show ?thesis
    using a b p q m1 m2 loneSpan_price loneSpan_review by (simp add: Let_def)
qed






text \<open>
  C6, as stated, fails. For an image whose direct source is the gif data URI
  \<^verbatim>\<open>data:image/gif,AAAA\<close> (not base64), with \<^verbatim>\<open>data-src="real.jpg"\<close> and the source
  set \<^verbatim>\<open>x.jpg 2x\<close>, the script answers \<^verbatim>\<open>x.jpg\<close>: the first \<^verbatim>\<open>if\<close> keeps the source
  (it only replaces a base64 gif or a blank gif), the second replaces a value that
  starts with \<^verbatim>\<open>data:image/gif\<close> by the source set. The stated precedence answers
  \<^verbatim>\<open>real.jpg\<close> when a gif data URI counts as a placeholder, and \<^verbatim>\<open>N/A\<close> when only the
  source's own placeholder test does.
\<close>

theorem image_url_counterexample:
  "actualImageUrl gifDataImage = js ''x.jpg''
   \<and> claimedImageUrl isPlaceholder gifDataImage = js ''real.jpg''
   \<and> claimedImageUrl isPlaceholderBase64 gifDataImage = js ''N/A''
   \<and> actualImageUrl gifDataImage \<noteq> claimedImageUrl isPlaceholder gifDataImage
   \<and> actualImageUrl gifDataImage \<noteq> claimedImageUrl isPlaceholderBase64 gifDataImage"
  by code_simp

text \<open>
  C6, amended. (a) The direct source is the URL when it is not empty, does not start
  with \<^verbatim>\<open>data:image/gif;base64\<close>, does not contain \<^verbatim>\<open>blank.gif\<close> and is not a data
  URI. (b) When the direct source is empty or such a placeholder, the first non-empty of
  \<^verbatim>\<open>data-src\<close> and \<^verbatim>\<open>data-lazyload\<close> is the URL, unless it is a data URI. (c) When the
  value of (a) or (b) is missing, empty or starts with \<^verbatim>\<open>data:image/gif\<close>, and the
  source set is not empty, the first field of the last entry of the source set replaces
  it (and is the URL unless it is empty or a data URI). (d) In every other case, and
  whenever the value is missing, empty or a data URI, the URL is \<^verbatim>\<open>N/A\<close>.
\<close>

theorem image_url_precedence:
  "(keptSource pr \<and> \<not> startsWith (src pr) (js ''data:'') \<longrightarrow> actualImageUrl pr = src pr)
   \<and> (\<not> keptSource pr \<and> truthy (lazyLoadUrl pr) \<and> \<not> startsWithOpt (lazyLoadUrl pr) (js ''data:'')
        \<longrightarrow> Some (actualImageUrl pr) = lazyLoadUrl pr)
   \<and> (srcsetOverrides pr \<longrightarrow> actualImageUrl pr = orNA (srcsetLastUrl pr))
   \<and> (\<not> srcsetOverrides pr
        \<and> (\<not> truthy (firstChoice pr) \<or> startsWithOpt (firstChoice pr) (js ''data:''))
        \<longrightarrow> actualImageUrl pr = js ''N/A'')
   \<and> (truthy (getAttribute pr ''data-src'') \<longrightarrow> lazyLoadUrl pr = getAttribute pr ''data-src'')
   \<and> (\<not> truthy (getAttribute pr ''data-src'') \<and> truthy (getAttribute pr ''data-lazyload'')
        \<longrightarrow> lazyLoadUrl pr = getAttribute pr ''data-lazyload'')"
proof (intro conjI impI)
  show "actualImageUrl pr = src pr" if "keptSource pr \<and> \<not> startsWith (src pr) (js ''data:'')"
    using that url_kept by blast
  show "Some (actualImageUrl pr) = lazyLoadUrl pr"
    if "\<not> keptSource pr \<and> truthy (lazyLoadUrl pr) \<and> \<not> startsWithOpt (lazyLoadUrl pr) (js ''data:'')"
    using that url_lazy by blast
  show "actualImageUrl pr = orNA (srcsetLastUrl pr)" if "srcsetOverrides pr"
    using that by (simp add: actualImageUrl_steps)
  show "actualImageUrl pr = js ''N/A''"
    if "\<not> srcsetOverrides pr
        \<and> (\<not> truthy (firstChoice pr) \<or> startsWithOpt (firstChoice pr) (js ''data:''))"
    using that url_NA by blast
  show "lazyLoadUrl pr = getAttribute pr ''data-src''" if "truthy (getAttribute pr ''data-src'')"
    using that by (simp add: lazyLoadUrl_def jsor_def)
  show "lazyLoadUrl pr = getAttribute pr ''data-lazyload''"
    if "\<not> truthy (getAttribute pr ''data-src'') \<and> truthy (getAttribute pr ''data-lazyload'')"
    using that by (simp add: lazyLoadUrl_def jsor_def)
qed

theorem image_url_precedence_witness:
  "keptSource plainImage \<and> actualImageUrl plainImage = js ''a.jpg''
   \<and> \<not> keptSource lazyImage \<and> actualImageUrl lazyImage = js ''lazy.jpg''
   \<and> srcsetOverrides srcsetImage \<and> actualImageUrl srcsetImage = js ''l.jpg''
   \<and> \<not> srcsetOverrides pngDataImage \<and> actualImageUrl pngDataImage = js ''N/A''
   \<and> lazyLoadUrl lazyImage = getAttribute lazyImage ''data-lazyload''
   \<and> lazyLoadUrl gifDataImage = getAttribute gifDataImage ''data-src''"
proof -
  have 1: "actualImageUrl plainImage = js ''a.jpg''"
    using image_url_precedence [of plainImage] example_images(1) by metis
  have 2: "actualImageUrl lazyImage = js ''lazy.jpg''"
    using image_url_precedence [of lazyImage] example_images(2) by (metis option.inject)
  have 3: "actualImageUrl srcsetImage = js ''l.jpg''"
    using image_url_precedence [of srcsetImage] example_images(3) by metis
  have 4: "actualImageUrl pngDataImage = js ''N/A''"
    using image_url_precedence [of pngDataImage] example_images(4) by metis
  have 5: "lazyLoadUrl lazyImage = getAttribute lazyImage ''data-lazyload''"
    using image_url_precedence [of lazyImage] example_images(5) by metis
  have 6: "lazyLoadUrl gifDataImage = getAttribute gifDataImage ''data-src''"
    using image_url_precedence [of gifDataImage] example_images(6) by metis
  show ?thesis using 1 2 3 4 5 6 example_images by simp
qed

text \<open>
  C7. An element that matches a review-container selector, or has an ancestor that
  does, is rejected by the filter (\<^verbatim>\<open>closest\<close> answers an element), it is no price
  element of the pass, and no record is pushed for it.
\<close>

theorem review_container_excluded:
  "a \<in> set (n # ancestors doc n) \<Longrightarrow> matches reviewContainerSelectors a \<Longrightarrow>
     closest doc n reviewContainerSelectors \<noteq> None
     \<and> \<not> isPotentialPrice doc n
     \<and> n \<notin> set (potentialPriceElements doc)
     \<and> (\<forall>L st ntf. detectProducts L doc = Inr (st, ntf) \<longrightarrow> n \<notin> set (priceElements st))"
proof -
  assume a: "a \<in> set (n # ancestors doc n)" and m: "matches reviewContainerSelectors a"
  from closest_Some [OF a m] have c: "closest doc n reviewContainerSelectors \<noteq> None" .
  then have f: "\<not> isPotentialPrice doc n" by (simp add: isPotentialPrice_def Let_def)
  then have p: "n \<notin> set (potentialPriceElements doc)" by (simp add: potentialPriceElements_def)
  have "n \<notin> set (priceElements st)" if h: "detectProducts L doc = Inr (st, ntf)" for L st ntf
  proof
    assume "n \<in> set (priceElements st)"
    then obtain x where x: "x \<in> set (emitted st)" and e: "n = fst (snd x)"
      by (auto simp: priceElements_def)
    from emitted_member [OF h x] e have "n \<in> set (potentialPriceElements doc)"
      by (cases x) (simp add: emittedOk_def)
    with p show False by simp
  qed
  with c f p show ?thesis by blast
qed

theorem review_container_excluded_witness:
  "subtree [] reviewPage ! 3 \<in> set (subtree [] reviewPage ! 7 # ancestors reviewPage (subtree [] reviewPage ! 7))
   \<and> matches reviewContainerSelectors (subtree [] reviewPage ! 3)
   \<and> priceRegex_test (trim (innerText (el (subtree [] reviewPage ! 7))))
   \<and> \<not> isPotentialPrice reviewPage (subtree [] reviewPage ! 7)
   \<and> (\<exists>st ntf. detectProducts (noReflow reviewPage) reviewPage = Inr (st, ntf)
         \<and> subtree [] reviewPage ! 7 \<notin> set (priceElements st))"
proof -
  have a: "subtree [] reviewPage ! 3 \<in> set (subtree [] reviewPage ! 7 # ancestors reviewPage (subtree [] reviewPage ! 7))"
    and m: "matches reviewContainerSelectors (subtree [] reviewPage ! 3)"
    and t: "priceRegex_test (trim (innerText (el (subtree [] reviewPage ! 7))))"
    using reviewPage_facts unfolding Let_def by blast+
  obtain st ntf where h: "detectProducts (noReflow reviewPage) reviewPage = Inr (st, ntf)"
    using reviewPage_run by (auto split: sum.splits)
  from review_container_excluded [OF a m] h a m t show ?thesis by blast
qed



text \<open>
  C9 does not hold of the script. \<open>svgLinkPage\<close> is a page with a \<^verbatim>\<open>head\<close> and a
  \<^verbatim>\<open>body\<close> whose only text is a paragraph without a price, and with an inline SVG
  drawing that holds a link. No element of it passes the filter, and the script throws:
  the selector of the scan matches the SVG \<^verbatim>\<open>a\<close> element, the visibility check of the
  filter callback compares its \<^verbatim>\<open>undefined\<close> \<^verbatim>\<open>offsetParent\<close>, \<^verbatim>\<open>offsetWidth\<close> and
  \<^verbatim>\<open>offsetHeight\<close> with \<^verbatim>\<open>===\<close> and lets it through, and \<^verbatim>\<open>el.innerText.trim()\<close> is a
  TypeError. Nothing is returned and no notification is shown. On \<open>svgDocument\<close>, which
  has no \<^verbatim>\<open>head\<close>, \<^verbatim>\<open>injectStyles\<close> throws before the scan.
\<close>

theorem empty_input_throws:
  "potentialPriceElements svgLinkPage = []
   \<and> document_head svgLinkPage \<noteq> None \<and> document_body svgLinkPage \<noteq> None
   \<and> map (\<lambda>n. (localName (el n), htmlElement (el n)))
         (document_querySelectorAll svgLinkPage priceSelectors) = [(''p'', True), (''a'', False)]
   \<and> scanPriceElements svgLinkPage = Inl TypeError
   \<and> (\<forall>L. detectProducts L svgLinkPage = Inl TypeError)
   \<and> potentialPriceElements svgDocument = []
   \<and> injectStyles svgDocument = Inl TypeError
   \<and> (\<forall>L. detectProducts L svgDocument = Inl TypeError)"
  using svgLinkPage_facts svgDocument_facts by (simp add: detectProducts_def)

text \<open>
  C10. The price of every pushed record is the trimmed text of its price element, which
  passed the filter; it is not empty and has at most 50 code units.
\<close>

theorem record_price_is_candidate_text:
  "detectProducts L doc = Inr (st, ntf) \<Longrightarrow> (c, p, r) \<in> set (emitted st) \<Longrightarrow>
     price r = trim (innerText (el p))
     \<and> price r \<noteq> [] \<and> length (price r) \<le> 50
     \<and> p \<in> set (potentialPriceElements doc)"
proof -
  assume h: "detectProducts L doc = Inr (st, ntf)" and m: "(c, p, r) \<in> set (emitted st)"
  from emitted_member [OF h m] have pp: "p \<in> set (potentialPriceElements doc)"
    and r: "price r = trim (innerText (el p))"
    by (simp_all add: emittedOk_def)
  from pp have "isPotentialPrice doc p" by (simp add: potentialPriceElements_def)
  then have "trim (innerText (el p)) \<noteq> [] \<and> length (trim (innerText (el p))) \<le> 50"
    by (auto simp: isPotentialPrice_def Let_def MAX_TEXT_ELEMENT_LENGTH_def split: if_splits)
  then show ?thesis using pp r by simp
qed

theorem record_price_is_candidate_text_witness:
  "\<exists>st ntf c p r. detectProducts (noReflow twoCards) twoCards = Inr (st, ntf)
     \<and> (c, p, r) \<in> set (emitted st)
     \<and> price r = js ''$19.99'' \<and> price r = trim (innerText (el p))
     \<and> price r \<noteq> [] \<and> length (price r) \<le> 50"
proof -
  obtain st ntf where h: "detectProducts (noReflow twoCards) twoCards = Inr (st, ntf)"
    using twoCards_first_record by (auto split: sum.splits)
  from twoCards_first_record h obtain c p r xs where e: "emitted st = (c, p, r) # xs"
    and v: "price r = js ''$19.99''"
    by (auto split: list.splits)
  from e have m: "(c, p, r) \<in> set (emitted st)" by simp
  from record_price_is_candidate_text [OF h m] v h m show ?thesis by blast
qed

end
